theory Spec2Isabelle
  imports Complex_Main "HOL-Library.Sublist"
begin

section \<open>JavaScript strings and numbers used by the dashboard\<close>

text \<open>
  A JavaScript string is a sequence of UTF-16 code units; a code unit is modelled as a
  natural number (below \<open>2^16\<close> in every string a program holds). Texts that are fixed
  in the source and only passed along (messages, course names) are HOL strings;
  \<open>ascii\<close> gives the code units of such a text.
\<close>

type_synonym jsstring = "nat list"

definition ascii :: "string \<Rightarrow> jsstring" where
  "ascii s = map of_char s"

text \<open>
  The white space of \<open>\s\<close>, \<open>trim\<close> and \<open>parseInt\<close>: the code points \<open>WhiteSpace\<close> and
  \<open>LineTerminator\<close> of ECMAScript (tab, line feed, vertical tab, form feed, carriage
  return, the space separators of Unicode, the line and paragraph separators, and the
  byte order mark).
\<close>

definition isWhiteSpace :: "nat \<Rightarrow> bool" where
  "isWhiteSpace c =
     (c \<in> set [0x09, 0x0A, 0x0B, 0x0C, 0x0D, 0x20, 0xA0, 0x1680, 0x2028, 0x2029, 0x202F,
               0x205F, 0x3000, 0xFEFF] \<or>
      (0x2000 \<le> c \<and> c \<le> 0x200A))"

definition trim :: "jsstring \<Rightarrow> jsstring" where
  "trim s = rev (dropWhile isWhiteSpace (rev (dropWhile isWhiteSpace s)))"

fun startsWith :: "jsstring \<Rightarrow> jsstring \<Rightarrow> bool" where
  "startsWith s [] = True"
| "startsWith [] (p # ps) = False"
| "startsWith (c # cs) (p # ps) = (c = p \<and> startsWith cs ps)"

text \<open>\<open>s.includes(p)\<close>: some position of \<open>s\<close> starts with \<open>p\<close>.\<close>

fun includes_js :: "jsstring \<Rightarrow> jsstring \<Rightarrow> bool" where
  "includes_js [] p = (p = [])"
| "includes_js (c # cs) p = (startsWith (c # cs) p \<or> includes_js cs p)"

subsection \<open>Lower case\<close>

text \<open>
  \<open>String.prototype.toLowerCase\<close> reads the string as code points, maps each code
  point by the Unicode Default Case Conversion, and writes the result as code units.
  The tables of the Unicode Character Database it consults are not part of the
  program; they are a parameter: the lower-case mapping of a code point (a sequence of
  code points, since a mapping may lengthen the string), and the properties \<open>Cased\<close>
  and \<open>Case_Ignorable\<close>.
\<close>

record unicode =
  lowercase :: "nat \<Rightarrow> nat list"
  cased :: "nat \<Rightarrow> bool"
  caseIgnorable :: "nat \<Rightarrow> bool"

definition isLeadSurrogate :: "nat \<Rightarrow> bool" where
  "isLeadSurrogate c = (0xD800 \<le> c \<and> c \<le> 0xDBFF)"

definition isTrailSurrogate :: "nat \<Rightarrow> bool" where
  "isTrailSurrogate c = (0xDC00 \<le> c \<and> c \<le> 0xDFFF)"

text \<open>A lead surrogate followed by a trail surrogate is one code point; any other code
  unit is a code point by itself.\<close>

fun codePoints :: "jsstring \<Rightarrow> nat list" where
  "codePoints [] = []"
| "codePoints [u] = [u]"
| "codePoints (u # v # rest) =
     (if isLeadSurrogate u \<and> isTrailSurrogate v
      then (0x10000 + (u - 0xD800) * 0x400 + (v - 0xDC00)) # codePoints rest
      else u # codePoints (v # rest))"

definition codeUnits :: "nat \<Rightarrow> jsstring" where
  "codeUnits cp =
     (if cp < 0x10000 then [cp]
      else [0xD800 + (cp - 0x10000) div 0x400, 0xDC00 + (cp - 0x10000) mod 0x400])"

text \<open>
  Going away from a position: a cased letter, after case-ignorable characters only.
\<close>

fun casedNext :: "unicode \<Rightarrow> nat list \<Rightarrow> bool" where
  "casedNext U [] = False"
| "casedNext U (c # cs) = (cased U c \<or> (caseIgnorable U c \<and> casedNext U cs))"

text \<open>
  The one mapping that depends on the context: a capital sigma (U+03A3) that ends a
  word (condition \<open>Final_Sigma\<close>: a cased letter before it, none after it, case-ignorable
  characters aside) becomes the final small sigma (U+03C2). \<open>passed\<close> holds the code
  points already gone through, the nearest first.
\<close>

fun toLowercase :: "unicode \<Rightarrow> nat list \<Rightarrow> nat list \<Rightarrow> nat list" where
  "toLowercase U passed [] = []"
| "toLowercase U passed (c # rest) =
     (if c = 0x03A3 \<and> casedNext U passed \<and> \<not> casedNext U rest then [0x03C2]
      else lowercase U c) @ toLowercase U (c # passed) rest"

definition toLowerCase :: "unicode \<Rightarrow> jsstring \<Rightarrow> jsstring" where
  "toLowerCase U s = concat (map codeUnits (toLowercase U [] (codePoints s)))"

text \<open>
  The entries of the Unicode tables for the code points U+0000 to U+007F and U+0391 to
  U+03C9 (the letters of the Greek alphabet). Outside these two ranges this table maps
  every code point to itself, which the Unicode tables do not; it serves the instances
  below, which use no other character.
\<close>

definition ucd :: unicode where
  "ucd = \<lparr> lowercase =
             (\<lambda>c. if (0x41 \<le> c \<and> c \<le> 0x5A) \<or> (0x391 \<le> c \<and> c \<le> 0x3AB \<and> c \<noteq> 0x3A2)
                  then [c + 32] else [c]),
           cased =
             (\<lambda>c. (0x41 \<le> c \<and> c \<le> 0x5A) \<or> (0x61 \<le> c \<and> c \<le> 0x7A) \<or>
                  (0x391 \<le> c \<and> c \<le> 0x3C9 \<and> c \<noteq> 0x3A2)),
           caseIgnorable = (\<lambda>c. c \<in> set [0x27, 0x2E, 0x3A, 0x5E, 0x60]) \<rparr>"

subsection \<open>Numbers\<close>

text \<open>
  The numbers the model describes exactly are the safe integers, the integers below
  \<open>2^53\<close> in absolute value: each is a double, and \<open>Number.prototype.toString\<close> prints
  its decimal digits. (Minus zero and zero are one number here; neither \<open>===\<close> nor
  \<open>toString\<close> tells them apart.)
\<close>

typedef safe_int = "{i :: int. \<bar>i\<bar> < 2 ^ 53}"
  morphisms int_of Abs_safe_int
  by (rule exI [of _ 0]) simp

setup_lifting type_definition_safe_int

text \<open>The safe integer of a given value (zero when the value is not one).\<close>

lift_definition safe :: "int \<Rightarrow> safe_int" is "\<lambda>i. if \<bar>i\<bar> < 2 ^ 53 then i else 0"
  by simp

instantiation safe_int :: equal
begin

lift_definition equal_safe_int :: "safe_int \<Rightarrow> safe_int \<Rightarrow> bool" is "(=)" .

instance
  by standard (transfer, rule refl)

end

text \<open>
  A number as \<open>parseInt\<close> returns it: \<open>NaN\<close>, a safe integer, or a number that is no
  safe integer (a double of magnitude \<open>2^53\<close> or more, or an infinity; which one is not
  described).
\<close>

datatype number = NaN | Num safe_int | NotSafe

definition digitChar :: "nat \<Rightarrow> nat" where
  "digitChar d = 48 + d"

function digitsOf :: "nat \<Rightarrow> jsstring" where
  "digitsOf n = (if n < 10 then [digitChar n] else digitsOf (n div 10) @ [digitChar (n mod 10)])"
  by pat_completeness auto
termination
  by (relation "measure (\<lambda>n. n)") auto

declare digitsOf.simps [simp del]

text \<open>\<open>Number.prototype.toString\<close> on a safe integer: its decimal digits, after a
  minus sign when it is negative.\<close>

definition toString :: "safe_int \<Rightarrow> jsstring" where
  "toString i =
     (if int_of i < 0 then ascii ''-'' @ digitsOf (nat (- int_of i))
      else digitsOf (nat (int_of i)))"

text \<open>
  \<open>Number.parseInt(string)\<close> with no radix: leading white space is skipped, a sign is
  read, a prefix \<open>0x\<close> or \<open>0X\<close> selects radix 16, and the longest run of digits of the
  radix is the value; with no digit the result is \<open>NaN\<close>. A value of magnitude \<open>2^53\<close>
  or more is returned as the nearest double (or, beyond 20 digits, as the engine
  approximates it), which is again of magnitude \<open>2^53\<close> or more.
\<close>

definition digitValue :: "nat \<Rightarrow> nat option" where
  "digitValue c =
     (if 48 \<le> c \<and> c \<le> 57 then Some (c - 48)
      else if 97 \<le> c \<and> c \<le> 102 then Some (c - 87)
      else if 65 \<le> c \<and> c \<le> 70 then Some (c - 55)
      else None)"

definition isRadixDigit :: "nat \<Rightarrow> nat \<Rightarrow> bool" where
  "isRadixDigit R c = (case digitValue c of Some d \<Rightarrow> d < R | None \<Rightarrow> False)"

definition digitsValue :: "nat \<Rightarrow> jsstring \<Rightarrow> nat" where
  "digitsValue R Z =
     foldl (\<lambda>acc c. case digitValue c of Some d \<Rightarrow> acc * R + d | None \<Rightarrow> acc) 0 Z"

definition parseInt :: "jsstring \<Rightarrow> number" where
  "parseInt str =
     (let S = dropWhile isWhiteSpace str;
          negative = startsWith S (ascii ''-'');
          S1 = (if startsWith S (ascii ''+'') \<or> startsWith S (ascii ''-'') then drop 1 S else S);
          hex = (startsWith S1 (ascii ''0x'') \<or> startsWith S1 (ascii ''0X''));
          R = (if hex then 16 else 10);
          S2 = (if hex then drop 2 S1 else S1);
          Z = takeWhile (isRadixDigit R) S2;
          mathInt = (if negative then - 1 else 1) * int (digitsValue R Z)
      in if Z = [] then NaN
         else if \<bar>mathInt\<bar> < 2 ^ 53 then Num (safe mathInt)
         else NotSafe)"

subsection \<open>encodeURIComponent\<close>

text \<open>
  \<open>encodeURIComponent\<close> goes through the code units. Letters, digits and
  \<open>- _ . ! ~ * ' ( )\<close> stay. Anything else is read as a code point (a surrogate pair
  is one code point) and written as the percent-escaped bytes of its UTF-8 encoding;
  a surrogate that has no partner makes the function throw a \<open>URIError\<close>.
\<close>

datatype uri_error = URIError

definition uriUnreserved :: "nat \<Rightarrow> bool" where
  "uriUnreserved c =
     ((48 \<le> c \<and> c \<le> 57) \<or> (65 \<le> c \<and> c \<le> 90) \<or> (97 \<le> c \<and> c \<le> 122) \<or>
      c \<in> set (ascii ''-_.!~*'') \<or> c \<in> set [0x27, 0x28, 0x29])"

definition utf8 :: "nat \<Rightarrow> nat list" where
  "utf8 cp =
     (if cp < 0x80 then [cp]
      else if cp < 0x800 then [0xC0 + cp div 0x40, 0x80 + cp mod 0x40]
      else if cp < 0x10000
        then [0xE0 + cp div 0x1000, 0x80 + (cp div 0x40) mod 0x40, 0x80 + cp mod 0x40]
      else [0xF0 + cp div 0x40000, 0x80 + (cp div 0x1000) mod 0x40,
            0x80 + (cp div 0x40) mod 0x40, 0x80 + cp mod 0x40])"

definition hexChar :: "nat \<Rightarrow> nat" where
  "hexChar d = (if d < 10 then 48 + d else 55 + d)"

definition percentByte :: "nat \<Rightarrow> jsstring" where
  "percentByte b = ascii ''%'' @ [hexChar (b div 16), hexChar (b mod 16)]"

definition percentEncoded :: "nat \<Rightarrow> jsstring" where
  "percentEncoded cp = concat (map percentByte (utf8 cp))"

definition followedBy :: "jsstring \<Rightarrow> uri_error + jsstring \<Rightarrow> uri_error + jsstring" where
  "followedBy r rest = (case rest of Inl e \<Rightarrow> Inl e | Inr s \<Rightarrow> Inr (r @ s))"


text \<open>
  \<open>Math.round\<close>: the nearest integer, a half rounding towards plus infinity. Its
  argument in the page is the quotient of two array lengths; the double that
  quotient is computed as rounds to the same integer as the exact quotient, since a
  quotient of two lengths that is not itself a half lies further from every half than
  doubles of its size are apart.
\<close>

definition Math_round :: "rat \<Rightarrow> int" where
  "Math_round x = \<lfloor>x + 1 / 2\<rfloor>"


section \<open>Regular expressions\<close>

text \<open>
  The fragment of regular expressions the form's pattern is written in (a pattern
  without the flag \<open>u\<close> matches code unit by code unit): character classes, sequence and \<open>+\<close>; \<open>Zero\<close>, \<open>One\<close> and \<open>Alt\<close> are what the derivative of
  such a pattern needs. \<open>lang\<close> is the set of strings a pattern matches between \<open>^\<close>
  and \<open>$\<close>; \<open>test\<close> decides it by derivatives.
\<close>

datatype regex =
    Zero
  | One
  | Class "nat \<Rightarrow> bool"
  | Alt regex regex
  | Seq regex regex
  | Plus regex

fun lang :: "regex \<Rightarrow> jsstring set" where
  "lang Zero = {}"
| "lang One = {[]}"
| "lang (Class p) = {w. \<exists>c. w = [c] \<and> p c}"
| "lang (Alt r s) = lang r \<union> lang s"
| "lang (Seq r s) = {w. \<exists>u v. w = u @ v \<and> u \<in> lang r \<and> v \<in> lang s}"
| "lang (Plus r) = {w. \<exists>ws. w = concat ws \<and> ws \<noteq> [] \<and> set ws \<subseteq> lang r}"

fun nullable :: "regex \<Rightarrow> bool" where
  "nullable Zero = False"
| "nullable One = True"
| "nullable (Class p) = False"
| "nullable (Alt r s) = (nullable r \<or> nullable s)"
| "nullable (Seq r s) = (nullable r \<and> nullable s)"
| "nullable (Plus r) = nullable r"

fun deriv :: "nat \<Rightarrow> regex \<Rightarrow> regex" where
  "deriv c Zero = Zero"
| "deriv c One = Zero"
| "deriv c (Class p) = (if p c then One else Zero)"
| "deriv c (Alt r s) = Alt (deriv c r) (deriv c s)"
| "deriv c (Seq r s) =
     (if nullable r then Alt (Seq (deriv c r) s) (deriv c s) else Seq (deriv c r) s)"
| "deriv c (Plus r) = Seq (deriv c r) (Alt One (Plus r))"

fun test :: "regex \<Rightarrow> jsstring \<Rightarrow> bool" where
  "test r [] = nullable r"
| "test r (c # cs) = test (deriv c r) cs"


section \<open>The student form (student-form.jsx)\<close>



text \<open>The character class \<open>[^\s@]\<close>.\<close>

definition notSpaceNorAt :: "nat \<Rightarrow> bool" where
  "notSpaceNorAt c = (\<not> isWhiteSpace c \<and> c \<noteq> of_char CHR ''@'')"

text \<open>The pattern \<open>/^[^\s@]+@[^\s@]+\.[^\s@]+$/\<close>.\<close>

definition re :: regex where
  "re = Seq (Plus (Class notSpaceNorAt))
         (Seq (Class (\<lambda>c. c = of_char CHR ''@''))
           (Seq (Plus (Class notSpaceNorAt))
             (Seq (Class (\<lambda>c. c = of_char CHR ''.''))
               (Plus (Class notSpaceNorAt)))))"

definition validateEmail :: "jsstring \<Rightarrow> bool" where
  "validateEmail email = test re email"







section \<open>The course catalog and the mock API (mock-api.js)\<close>

text \<open>
  Arrays and course objects are JavaScript objects with an identity, so they live in a
  store: an address is an index into the list of allocated objects, an array holds the
  addresses of its elements, and a new object is allocated at the end.
\<close>

type_synonym addr = nat

record course =
  course_id :: int
  course_name :: string

datatype obj = CourseObj course | ArrayObj "addr list"

type_synonym heap = "obj list"

definition deref :: "heap \<Rightarrow> addr \<Rightarrow> obj option" where
  "deref h a = (if a < length h then Some (h ! a) else None)"

definition alloc :: "obj \<Rightarrow> heap \<Rightarrow> addr \<times> heap" where
  "alloc ob h = (length h, h @ [ob])"

text \<open>
  The elements of the array at an address, and the course object at an address. A
  JavaScript reference always leads to its object; where the store holds no array, or
  no course, at the address, the model answers with no element and with no course.
\<close>

definition elements :: "heap \<Rightarrow> addr \<Rightarrow> addr list" where
  "elements h a = (case deref h a of Some (ArrayObj es) \<Rightarrow> es | _ \<Rightarrow> [])"

definition courseAt :: "heap \<Rightarrow> addr \<Rightarrow> course option" where
  "courseAt h a = (case deref h a of Some (CourseObj c) \<Rightarrow> Some c | _ \<Rightarrow> None)"

text \<open>An array read by value: the course found behind each element.\<close>

definition readCourses :: "heap \<Rightarrow> addr \<Rightarrow> course option list" where
  "readCourses h a = map (courseAt h) (elements h a)"

text \<open>
  The store once the module is loaded: the four course objects of the array literal,
  then the array \<open>COURSES_DATA\<close> itself.
\<close>

definition module_heap :: heap where
  "module_heap =
     [CourseObj \<lparr> course_id = 1, course_name = ''HTML Basics'' \<rparr>,
      CourseObj \<lparr> course_id = 2, course_name = ''CSS Mastery'' \<rparr>,
      CourseObj \<lparr> course_id = 3, course_name = ''JavaScript Pro'' \<rparr>,
      CourseObj \<lparr> course_id = 4, course_name = ''React In Depth'' \<rparr>,
      ArrayObj [0, 1, 2, 3]]"

definition COURSES_DATA :: addr where
  "COURSES_DATA = 4"

datatype js_error = Error string

text \<open>The spread \<open>[...a]\<close>: a new array holding the elements of \<open>a\<close>.\<close>

definition spread :: "addr \<Rightarrow> heap \<Rightarrow> addr \<times> heap" where
  "spread a h = alloc (ArrayObj (elements h a)) h"

text \<open>
  \<open>getCourses\<close>, after its delay. \<open>random\<close> is the value \<open>Math.random()\<close> returns,
  a double in the interval from 0 to 1; a double is below the double \<open>0.1\<close> exactly
  when it is below one tenth, the threshold written here.
\<close>

definition getCourses :: "rat \<Rightarrow> heap \<Rightarrow> (js_error + addr) \<times> heap" where
  "getCourses random h =
     (if random < 1 / 10 then (Inl (Error ''Network error: Unable to fetch courses''), h)
      else case spread COURSES_DATA h of (a, h') \<Rightarrow> (Inr a, h'))"

text \<open>\<open>getCourseById\<close>, after its delay: \<open>None\<close> is \<open>null\<close>.\<close>

definition getCourseById :: "int \<Rightarrow> heap \<Rightarrow> addr option" where
  "getCourseById i h =
     (case find (\<lambda>a. case courseAt h a of Some c \<Rightarrow> course_id c = i | None \<Rightarrow> False)
             (elements h COURSES_DATA) of
        Some course \<Rightarrow> Some course
      | None \<Rightarrow> None)"

definition fetchCourses :: "rat \<Rightarrow> heap \<Rightarrow> (js_error + addr) \<times> heap" where
  "fetchCourses random h = getCourses random h"

text \<open>
  What a caller can do to an object it holds: give a course object new fields, or an
  array new contents (an assignment to an index, \<open>push\<close>, \<open>pop\<close>, \<open>splice\<close>, \<open>sort\<close>
  are all of this form).
\<close>

definition writeCourse :: "addr \<Rightarrow> course \<Rightarrow> heap \<Rightarrow> heap" where
  "writeCourse a c h = (case deref h a of Some (CourseObj _) \<Rightarrow> h[a := CourseObj c] | _ \<Rightarrow> h)"

definition writeArray :: "addr \<Rightarrow> addr list \<Rightarrow> heap \<Rightarrow> heap" where
  "writeArray a es h = (case deref h a of Some (ArrayObj _) \<Rightarrow> h[a := ArrayObj es] | _ \<Rightarrow> h)"

text \<open>
  The stores a program can reach: \<open>COURSES_DATA\<close> is not exported and no function
  returns it, so a caller writes to course objects and to other arrays only.
\<close>

inductive reachable :: "heap \<Rightarrow> bool" where
  module_loaded: "reachable module_heap"
| called_getCourses: "reachable h \<Longrightarrow> reachable (snd (getCourses random h))"
| wrote_course: "reachable h \<Longrightarrow> reachable (writeCourse a c h)"
| wrote_array: "reachable h \<Longrightarrow> a \<noteq> COURSES_DATA \<Longrightarrow> reachable (writeArray a es h)"
| allocated: "reachable h \<Longrightarrow> reachable (snd (alloc ob h))"


section \<open>The dashboard (page.jsx)\<close>

text \<open>A student; \<open>courseId\<close> is the id of a course, a safe integer.\<close>

record student =
  student_id :: jsstring
  student_name :: jsstring
  student_email :: jsstring
  courseId :: safe_int
  profileImage :: "jsstring option"
  createdAt :: int

text \<open>The state of the component that \<open>loadCourses\<close> writes and the page renders from.\<close>

record dashboard =
  courses :: addr
  loading :: bool
  error :: "string option"

definition setCourses :: "addr \<Rightarrow> dashboard \<Rightarrow> dashboard" where
  "setCourses a s = s\<lparr> courses := a \<rparr>"

definition setLoading :: "bool \<Rightarrow> dashboard \<Rightarrow> dashboard" where
  "setLoading b s = s\<lparr> loading := b \<rparr>"

definition setError :: "string option \<Rightarrow> dashboard \<Rightarrow> dashboard" where
  "setError e s = s\<lparr> error := e \<rparr>"

text \<open>The state at mount: \<open>useState([])\<close>, \<open>useState(true)\<close>, \<open>useState(null)\<close>.\<close>

definition mount :: "heap \<Rightarrow> dashboard \<times> heap" where
  "mount h =
     (case alloc (ArrayObj []) h of
        (a, h') \<Rightarrow> (\<lparr> courses = a, loading = True, error = None \<rparr>, h'))"

text \<open>
  \<open>loadCourses\<close> runs in two parts. Before the first \<open>await\<close> it sets \<open>loading\<close> and
  clears \<open>error\<close>. When \<open>fetchCourses\<close> has settled it stores the courses (\<open>try\<close>) or
  the message (\<open>catch\<close>), and then clears \<open>loading\<close> (\<open>finally\<close>).
\<close>

definition loadCourses_begin :: "dashboard \<Rightarrow> dashboard" where
  "loadCourses_begin s = setError None (setLoading True s)"

definition loadCourses_settled :: "js_error + addr \<Rightarrow> dashboard \<Rightarrow> dashboard" where
  "loadCourses_settled outcome s =
     (case outcome of
        Inr coursesData \<Rightarrow> setCourses coursesData s
      | Inl err \<Rightarrow> setError (Some ''Failed to load courses. Please try again.'') s)"

definition loadCourses_finally :: "dashboard \<Rightarrow> dashboard" where
  "loadCourses_finally s = setLoading False s"

definition loadCourses :: "rat \<Rightarrow> dashboard \<times> heap \<Rightarrow> dashboard \<times> heap" where
  "loadCourses random sh =
     (case sh of (s, h) \<Rightarrow>
        case fetchCourses random h of (outcome, h') \<Rightarrow>
          (loadCourses_finally (loadCourses_settled outcome (loadCourses_begin s)), h'))"

text \<open>Every state the component passes through during one \<open>loadCourses\<close>, setter by setter.\<close>

definition loadCourses_states :: "rat \<Rightarrow> dashboard \<times> heap \<Rightarrow> dashboard list" where
  "loadCourses_states random sh =
     (case sh of (s, h) \<Rightarrow>
        [setLoading True s,
         loadCourses_begin s,
         loadCourses_settled (fst (fetchCourses random h)) (loadCourses_begin s),
         fst (loadCourses random sh)])"

text \<open>
  What the page shows: the spinner while \<open>loading\<close>, else the error card when \<open>error\<close>
  is truthy (a string that is not empty), else the dashboard with the courses.
\<close>

datatype view = Loading | ErrorView string | Ready addr

definition render :: "dashboard \<Rightarrow> view" where
  "render s =
     (if loading s then Loading
      else case error s of
             Some message \<Rightarrow> if message \<noteq> [] then ErrorView message else Ready (courses s)
           | None \<Rightarrow> Ready (courses s))"

text \<open>The filter of the list; the tables of \<open>toLowerCase\<close> are the parameter \<open>U\<close>.\<close>

definition matchesSearch :: "unicode \<Rightarrow> jsstring \<Rightarrow> student \<Rightarrow> bool" where
  "matchesSearch U searchTerm st =
     (includes_js (toLowerCase U (student_name st)) (toLowerCase U searchTerm) \<or>
      includes_js (toLowerCase U (student_email st)) (toLowerCase U searchTerm))"

definition matchesCourse :: "jsstring \<Rightarrow> student \<Rightarrow> bool" where
  "matchesCourse selectedCourse st =
     (selectedCourse = ascii ''all'' \<or> toString (courseId st) = selectedCourse)"

definition filteredStudents ::
  "unicode \<Rightarrow> student list \<Rightarrow> jsstring \<Rightarrow> jsstring \<Rightarrow> student list" where
  "filteredStudents U students searchTerm selectedCourse =
     filter (\<lambda>st. matchesSearch U searchTerm st \<and> matchesCourse selectedCourse st) students"

record stats =
  totalStudents :: nat
  totalCourses :: nat
  recentEnrollments :: nat
  averagePerCourse :: int

text \<open>\<open>now\<close> is the time value of \<open>new Date()\<close>.\<close>

definition dashboardStats :: "student list \<Rightarrow> 'c list \<Rightarrow> int \<Rightarrow> stats" where
  "dashboardStats students cs now =
     (let totalStudents = length students;
          totalCourses = length cs;
          recentEnrollments =
            length (filter (\<lambda>st. now - createdAt st < 30 * 24 * 60 * 60 * 1000) students)
      in \<lparr> totalStudents = totalStudents,
           totalCourses = totalCourses,
           recentEnrollments = recentEnrollments,
           averagePerCourse =
             (if totalCourses > 0
              then Math_round (of_nat totalStudents / of_nat totalCourses) else 0) \<rparr>)"


section \<open>Notions the properties are stated with\<close>

text \<open>A part of an address: not empty, and free of white space and of \<open>@\<close>.\<close>

definition emailPart :: "jsstring \<Rightarrow> bool" where
  "emailPart w = (w \<noteq> [] \<and> list_all notSpaceNorAt w)"

text \<open>What follows the last dot of a string (the whole string when it has no dot).\<close>

definition afterLastDot :: "jsstring \<Rightarrow> jsstring" where
  "afterLastDot e = rev (takeWhile (\<lambda>c. c \<noteq> of_char CHR ''.'') (rev e))"

text \<open>
  \<open>t\<close> is \<open>s\<close> with its leading and trailing white space removed: only white space
  was cut off, and \<open>t\<close> neither starts nor ends with white space.
\<close>

definition isTrimOf :: "jsstring \<Rightarrow> jsstring \<Rightarrow> bool" where
  "isTrimOf t s =
     (\<exists>pre suf. s = pre @ t @ suf \<and> list_all isWhiteSpace pre \<and> list_all isWhiteSpace suf \<and>
        (t = [] \<or> (\<not> isWhiteSpace (hd t) \<and> \<not> isWhiteSpace (last t))))"

text \<open>
  Two code units are the same letter up to case, for the letters of ASCII; a text
  contains a search string ignoring case when one of its substrings is the search
  string letter by letter up to case.
\<close>

definition sameLetter :: "nat \<Rightarrow> nat \<Rightarrow> bool" where
  "sameLetter a b =
     (a = b \<or> (65 \<le> a \<and> a \<le> 90 \<and> b = a + 32) \<or> (65 \<le> b \<and> b \<le> 90 \<and> a = b + 32))"

definition containsIgnoringCase :: "jsstring \<Rightarrow> jsstring \<Rightarrow> bool" where
  "containsIgnoringCase text q = (\<exists>m. sublist m text \<and> list_all2 sameLetter m q)"

definition isAscii :: "jsstring \<Rightarrow> bool" where
  "isAscii s = list_all (\<lambda>c. c < 128) s"

text \<open>The lower-case mapping of the Unicode tables on ASCII.\<close>

definition asciiLower :: "nat \<Rightarrow> nat" where
  "asciiLower c = (if 65 \<le> c \<and> c \<le> 90 then c + 32 else c)"

definition asciiTable :: "unicode \<Rightarrow> bool" where
  "asciiTable U = (\<forall>c<128. lowercase U c = [asciiLower c])"




definition dayMs :: int where
  "dayMs = 24 * 60 * 60 * 1000"

text \<open>The trailing 30-day window of \<open>now\<close>: the 30 days that end at \<open>now\<close>.\<close>

definition inTrailingWindow :: "int \<Rightarrow> int \<Rightarrow> bool" where
  "inTrailingWindow now t = (now - 30 * dayMs < t \<and> t \<le> now)"


text \<open>
  The catalog as the module built it: \<open>COURSES_DATA\<close> is the array of the addresses of
  the four course objects, and a course object lives at each of them.
\<close>

definition catalogInvariant :: "heap \<Rightarrow> bool" where
  "catalogInvariant h =
     (deref h COURSES_DATA = Some (ArrayObj [0, 1, 2, 3]) \<and>
      list_all (\<lambda>a. courseAt h a \<noteq> None) [0, 1, 2, 3])"


section \<open>Scenarios\<close>

text \<open>The first two students of the page's initial state.\<close>

definition rajesh :: student where
  "rajesh = \<lparr> student_id = ascii ''1'', student_name = ascii ''Rajesh Patil'',
              student_email = ascii ''rajesh.patil@gmail.com'', courseId = safe 1,
              profileImage = Some (ascii ''/professional-man.png''),
              createdAt = 1736899200000 \<rparr>"

definition om :: student where
  "om = \<lparr> student_id = ascii ''2'', student_name = ascii ''Om Patel'',
          student_email = ascii ''om.patel@gmail.com'', courseId = safe 2,
          profileImage = Some (ascii ''/professional-man.png''),
          createdAt = 1740009600000 \<rparr>"

text \<open>Three students enrolled 10, 40 and 5 days before \<open>now\<close>, and two courses.\<close>

definition enrolled :: "int \<Rightarrow> safe_int \<Rightarrow> student" where
  "enrolled t c = \<lparr> student_id = [], student_name = [], student_email = [], courseId = c,
                    profileImage = None, createdAt = t \<rparr>"

definition threeStudents :: "int \<Rightarrow> student list" where
  "threeStudents now =
     [enrolled (now - 10 * dayMs) (safe 1), enrolled (now - 40 * dayMs) (safe 1),
      enrolled (now - 5 * dayMs) (safe 2)]"

definition twoCourses :: "course list" where
  "twoCourses = [\<lparr> course_id = 1, course_name = [] \<rparr>, \<lparr> course_id = 2, course_name = [] \<rparr>]"

text \<open>A page that loads its courses, and then loads again while the fetch fails.\<close>

definition loaded :: "dashboard \<times> heap" where
  "loaded = loadCourses (1 / 2) (mount module_heap)"

definition failedReload :: "dashboard \<times> heap" where
  "failedReload = loadCourses (1 / 20) loaded"

text \<open>
  Two calls of \<open>getCourses\<close> that succeed; then the caller of the first renames the
  first course of its result.
\<close>

definition afterFirstCall :: heap where
  "afterFirstCall = snd (getCourses (1 / 2) module_heap)"

definition afterSecondCall :: heap where
  "afterSecondCall = snd (getCourses (1 / 2) afterFirstCall)"

definition renamed :: course where
  "renamed = \<lparr> course_id = 1, course_name = ''Renamed'' \<rparr>"

definition afterRename :: heap where
  "afterRename = writeCourse (elements afterSecondCall 5 ! 0) renamed afterSecondCall"


text \<open>
  A student whose name is NIKOSIA in Greek capitals (the sigma is the fifth letter), and
  the search string NIKOS, the first five letters of that name.
\<close>

definition nikos :: jsstring where
  "nikos = [0x39D, 0x399, 0x39A, 0x39F, 0x3A3]"

definition nikosia :: student where
  "nikosia = \<lparr> student_id = ascii ''4'', student_name = nikos @ [0x399, 0x391],
               student_email = ascii ''nikosia@example.com'', courseId = safe 1,
               profileImage = None, createdAt = 1741564800000 \<rparr>"




section \<open>Facts about the string functions\<close>

lemmas str_eval = ascii_def isWhiteSpace_def trim_def isLeadSurrogate_def isTrailSurrogate_def
  codeUnits_def toLowerCase_def ucd_def uriUnreserved_def utf8_def hexChar_def percentByte_def
  percentEncoded_def followedBy_def notSpaceNorAt_def re_def validateEmail_def

lemma startsWith_prefix: "startsWith s p \<longleftrightarrow> prefix p s"
  by (induction s p rule: startsWith.induct) auto

lemma includes_js_sublist: "includes_js s p \<longleftrightarrow> sublist p s"
  by (induction s) (auto simp: startsWith_prefix sublist_Cons_right)

lemma sublist_map_image:
  "sublist (map f q) (map f s) \<longleftrightarrow> (\<exists>m. sublist m s \<and> map f m = map f q)"
proof
  assume "sublist (map f q) (map f s)"
  then obtain ps ss where eq: "map f s = ps @ map f q @ ss" by (auto simp: sublist_def)
  define m where "m = take (length q) (drop (length ps) s)"
  have "map f m = take (length q) (drop (length ps) (map f s))"
    by (simp add: m_def take_map drop_map)
  also have "\<dots> = map f q" by (simp add: eq)
  finally have "map f m = map f q" .
  moreover have "s = take (length ps) s @ m @ drop (length q) (drop (length ps) s)"
    unfolding m_def by (metis append_take_drop_id)
  then have "sublist m s" unfolding sublist_def by blast
  ultimately show "\<exists>m. sublist m s \<and> map f m = map f q" by blast
next
  assume "\<exists>m. sublist m s \<and> map f m = map f q"
  then obtain m ps ss where "s = ps @ m @ ss" "map f m = map f q" by (auto simp: sublist_def)
  then have "map f s = map f ps @ map f q @ map f ss" by simp
  then show "sublist (map f q) (map f s)" unfolding sublist_def by blast
qed

subsection \<open>Lower case on ASCII\<close>

lemma codePoints_ascii: "isAscii s \<Longrightarrow> codePoints s = s"
  by (induction s rule: codePoints.induct) (auto simp: isAscii_def isLeadSurrogate_def)

lemma toLowercase_ascii:
  assumes "asciiTable U" and "isAscii s"
  shows "toLowercase U passed s = map asciiLower s"
  using assms(2)
proof (induction s arbitrary: passed)
  case Nil
  show ?case by simp
next
  case (Cons c s)
  then have c: "c < 128" and s: "isAscii s" by (simp_all add: isAscii_def)
  have "lowercase U c = [asciiLower c]" using assms(1) c by (simp add: asciiTable_def)
  moreover have "c \<noteq> 0x03A3" using c by simp
  ultimately show ?case using Cons.IH [OF s] by simp
qed

lemma concat_codeUnits: "list_all (\<lambda>c. c < 0x10000) xs \<Longrightarrow> concat (map codeUnits xs) = xs"
  by (induction xs) (auto simp: codeUnits_def)

lemma toLowerCase_ascii:
  assumes "asciiTable U" and "isAscii s"
  shows "toLowerCase U s = map asciiLower s"
proof -
  have "list_all (\<lambda>c. c < 0x10000) (map asciiLower s)"
    using assms(2) by (auto simp: isAscii_def list_all_iff asciiLower_def)
  then have "concat (map codeUnits (map asciiLower s)) = map asciiLower s"
    by (rule concat_codeUnits)
  then show ?thesis
    unfolding toLowerCase_def codePoints_ascii [OF assms(2)] toLowercase_ascii [OF assms] .
qed

lemma asciiTable_ucd: "asciiTable ucd"
  by (auto simp: asciiTable_def ucd_def asciiLower_def)

lemma asciiLower_sameLetter:
  assumes "a < 128" and "b < 128"
  shows "asciiLower a = asciiLower b \<longleftrightarrow> sameLetter a b"
  using assms by (auto simp: asciiLower_def sameLetter_def)

lemma map_asciiLower_sameLetter:
  assumes "isAscii m" and "isAscii q"
  shows "map asciiLower m = map asciiLower q \<longleftrightarrow> list_all2 sameLetter m q"
  using assms
proof (induction m arbitrary: q)
  case Nil
  show ?case by auto
next
  case (Cons a m)
  show ?case
  proof (cases q)
    case Nil
    then show ?thesis by simp
  next
    case (Cons b q')
    with Cons.prems have "a < 128" "b < 128" "isAscii m" "isAscii q'"
      by (simp_all add: isAscii_def)
    with Cons.IH [of q'] asciiLower_sameLetter [of a b] Cons show ?thesis by simp
  qed
qed

lemma isAscii_sublist: "sublist m s \<Longrightarrow> isAscii s \<Longrightarrow> isAscii m"
  by (auto simp: sublist_def isAscii_def)

lemma includes_js_ascii:
  assumes "asciiTable U" and "isAscii q" and "isAscii s"
  shows "includes_js (toLowerCase U s) (toLowerCase U q) \<longleftrightarrow> containsIgnoringCase s q"
proof -
  have "includes_js (toLowerCase U s) (toLowerCase U q) \<longleftrightarrow>
      sublist (map asciiLower q) (map asciiLower s)"
    by (simp add: includes_js_sublist toLowerCase_ascii [OF assms(1)] assms(2,3))
  also have "\<dots> \<longleftrightarrow> (\<exists>m. sublist m s \<and> map asciiLower m = map asciiLower q)"
    by (rule sublist_map_image)
  also have "\<dots> \<longleftrightarrow> (\<exists>m. sublist m s \<and> list_all2 sameLetter m q)"
    using map_asciiLower_sameLetter [OF isAscii_sublist [OF _ assms(3)] assms(2)] by blast
  finally show ?thesis by (simp add: containsIgnoringCase_def)
qed

subsection \<open>Digits, \<open>toString\<close> and \<open>parseInt\<close>\<close>

lemma digitValue_digitChar: "d < 10 \<Longrightarrow> digitValue (digitChar d) = Some d"
  by (simp add: digitValue_def digitChar_def)

lemma digitsOf_chars: "c \<in> set (digitsOf n) \<Longrightarrow> \<exists>d<10. c = digitChar d"
proof (induction n arbitrary: c rule: digitsOf.induct)
  case (1 n)
  show ?case
  proof (cases "n < 10")
    case True
    with "1.prems" show ?thesis by (subst (asm) digitsOf.simps) auto
  next
    case False
    with "1.prems" have "c \<in> set (digitsOf (n div 10)) \<or> c = digitChar (n mod 10)"
      by (subst (asm) digitsOf.simps) auto
    then show ?thesis
    proof
      assume "c \<in> set (digitsOf (n div 10))"
      with "1.IH" False show ?thesis by blast
    next
      assume "c = digitChar (n mod 10)"
      moreover have "n mod 10 < 10" by simp
      ultimately show ?thesis by blast
    qed
  qed
qed

lemma digitsOf_not_empty: "digitsOf n \<noteq> []"
  by (subst digitsOf.simps) simp

lemma digitsValue_snoc:
  "digitsValue R (Z @ [c]) = (case digitValue c of Some d \<Rightarrow> digitsValue R Z * R + d | None \<Rightarrow> digitsValue R Z)"
  by (simp add: digitsValue_def split: option.split)

lemma digitsValue_digitsOf: "digitsValue 10 (digitsOf n) = n"
proof (induction n rule: digitsOf.induct)
  case (1 n)
  show ?case
  proof (cases "n < 10")
    case True
    then show ?thesis
      by (subst digitsOf.simps) (simp add: digitsValue_def digitValue_digitChar)
  next
    case False
    with "1.IH" have "digitsValue 10 (digitsOf (n div 10)) = n div 10" by simp
    with False show ?thesis
      by (subst digitsOf.simps) (simp add: digitsValue_snoc digitValue_digitChar)
  qed
qed

lemma digit_facts:
  assumes "d < 10"
  shows "\<not> isWhiteSpace (digitChar d)" "digitChar d \<noteq> 45" "digitChar d \<noteq> 43"
    "digitChar d \<noteq> 120" "digitChar d \<noteq> 88" "isRadixDigit 10 (digitChar d)"
  using assms by (auto simp: isWhiteSpace_def digitChar_def isRadixDigit_def digitValue_def)

lemma startsWith_sign_digit:
  assumes "d < 10"
  shows "\<not> startsWith (digitChar d # cs) (ascii ''-'')"
    "\<not> startsWith (digitChar d # cs) (ascii ''+'')"
    "dropWhile isWhiteSpace (digitChar d # cs) = digitChar d # cs"
  using digit_facts(1,2,3) [OF assms] by (simp_all add: ascii_def)

lemma startsWith_hex_digits:
  assumes "\<forall>c\<in>set Z. \<exists>d<10. c = digitChar d"
  shows "\<not> startsWith Z (ascii ''0x'') \<and> \<not> startsWith Z (ascii ''0X'')"
proof (cases Z)
  case Nil
  then show ?thesis by (simp add: ascii_def)
next
  case Z: (Cons c cs)
  show ?thesis
  proof (cases cs)
    case Nil
    with Z show ?thesis by (simp add: ascii_def)
  next
    case (Cons e es)
    with assms Z obtain k where k: "k < 10" "e = digitChar k" by auto
    have "e \<noteq> 120" "e \<noteq> 88" using digit_facts(4,5) [OF k(1)] k(2) by simp_all
    with Z Cons show ?thesis by (simp add: ascii_def)
  qed
qed

lemma takeWhile_digits:
  assumes "\<forall>c\<in>set Z. \<exists>d<10. c = digitChar d"
  shows "takeWhile (isRadixDigit 10) Z = Z"
proof -
  have "isRadixDigit 10 c" if "c \<in> set Z" for c
  proof -
    from assms that obtain d where "d < 10" "c = digitChar d" by blast
    then show ?thesis using digit_facts(6) by simp
  qed
  then show ?thesis by (simp only: takeWhile_eq_all_conv) blast
qed

lemma parseInt_digits:
  assumes "Z \<noteq> []" and "\<forall>c\<in>set Z. \<exists>d<10. c = digitChar d"
    and "int (digitsValue 10 Z) < 2 ^ 53"
  shows "parseInt Z = Num (safe (int (digitsValue 10 Z))) \<and>
         parseInt (ascii ''-'' @ Z) = Num (safe (- int (digitsValue 10 Z)))"
proof -
  obtain c cs where Z: "Z = c # cs" using assms(1) by (cases Z) auto
  obtain d where d: "d < 10" "c = digitChar d" using assms(2) Z by auto
  have ws: "dropWhile isWhiteSpace Z = Z"
    and sign: "\<not> startsWith Z (ascii ''-'')" "\<not> startsWith Z (ascii ''+'')"
    unfolding Z d(2) using startsWith_sign_digit [OF d(1)] by simp_all
  have hex: "\<not> startsWith Z (ascii ''0x'')" "\<not> startsWith Z (ascii ''0X'')"
    using startsWith_hex_digits [OF assms(2)] by simp_all
  have tw: "takeWhile (isRadixDigit 10) Z = Z" using assms(2) by (rule takeWhile_digits)
  have minus: "dropWhile isWhiteSpace (ascii ''-'' @ Z) = ascii ''-'' @ Z"
    "startsWith (ascii ''-'' @ Z) (ascii ''-'')" "drop 1 (ascii ''-'' @ Z) = Z"
    by (simp_all add: isWhiteSpace_def ascii_def)
  have "parseInt Z = Num (safe (int (digitsValue 10 Z)))"
    unfolding parseInt_def Let_def ws using assms(3) by (simp add: sign hex tw assms(1))
  moreover have "parseInt (ascii ''-'' @ Z) = Num (safe (- int (digitsValue 10 Z)))"
    unfolding parseInt_def Let_def minus using assms(3) by (simp add: minus hex tw assms(1))
  ultimately show ?thesis by simp
qed

lemma parseInt_digitsOf:
  assumes "int n < 2 ^ 53"
  shows "parseInt (digitsOf n) = Num (safe (int n)) \<and>
         parseInt (ascii ''-'' @ digitsOf n) = Num (safe (- int n))"
proof -
  have "digitsOf n \<noteq> []" by (rule digitsOf_not_empty)
  moreover have "\<forall>c\<in>set (digitsOf n). \<exists>d<10. c = digitChar d"
    using digitsOf_chars by blast
  moreover have "int (digitsValue 10 (digitsOf n)) < 2 ^ 53"
    using assms by (simp only: digitsValue_digitsOf)
  ultimately have "parseInt (digitsOf n) = Num (safe (int (digitsValue 10 (digitsOf n)))) \<and>
      parseInt (ascii ''-'' @ digitsOf n) = Num (safe (- int (digitsValue 10 (digitsOf n))))"
    by (rule parseInt_digits)
  then show ?thesis by (simp only: digitsValue_digitsOf)
qed

lemma safe_int_of: "safe (int_of i) = i"
  by transfer simp

lemma int_of_bound: "\<bar>int_of i\<bar> < 2 ^ 53"
  using int_of [of i] by simp

text \<open>A safe integer that is printed and parsed is the same safe integer.\<close>

lemma parseInt_toString: "parseInt (toString i) = Num i"
proof (cases "int_of i < 0")
  case True
  have "int (nat (- int_of i)) < 2 ^ 53" using int_of_bound [of i] True by simp
  from parseInt_digitsOf [OF this] True show ?thesis
    by (simp add: toString_def safe_int_of)
next
  case False
  have "int (nat (int_of i)) < 2 ^ 53" using int_of_bound [of i] False by simp
  from parseInt_digitsOf [OF this] False show ?thesis
    by (simp add: toString_def safe_int_of)
qed

lemma toString_inj: "toString i = toString j \<longleftrightarrow> i = j"
proof
  assume "toString i = toString j"
  then have "parseInt (toString i) = parseInt (toString j)" by simp
  then show "i = j" by (simp only: parseInt_toString number.inject)
qed simp

lemma parseInt_all: "parseInt (ascii ''all'') = NaN"
  by (simp add: parseInt_def ascii_def isWhiteSpace_def isRadixDigit_def digitValue_def)

lemma toString_not_all: "toString i \<noteq> ascii ''all''"
proof
  assume "toString i = ascii ''all''"
  then have "parseInt (ascii ''all'') = Num i" using parseInt_toString [of i] by (simp only:)
  then show False by (simp only: parseInt_all number.distinct)
qed

subsection \<open>\<open>trim\<close>\<close>


lemma dropWhile_all: "list_all P xs \<Longrightarrow> dropWhile P (xs @ ys) = dropWhile P ys"
  by (induction xs) auto

lemma isTrimOf_unique:
  assumes "isTrimOf t s"
  shows "t = trim s"
proof -
  from assms obtain pre suf where s: "s = pre @ t @ suf"
    and pre: "list_all isWhiteSpace pre" and suf: "list_all isWhiteSpace suf"
    and ends: "t = [] \<or> (\<not> isWhiteSpace (hd t) \<and> \<not> isWhiteSpace (last t))"
    unfolding isTrimOf_def by blast
  have rsuf: "list_all isWhiteSpace (rev suf)" using suf by (simp add: list_all_iff)
  show ?thesis
  proof (cases "t = []")
    case True
    have "list_all isWhiteSpace s" using s True pre suf by (auto simp: list_all_iff)
    then have d: "dropWhile isWhiteSpace s = []" by (simp add: list_all_iff)
    show ?thesis unfolding trim_def d True by simp
  next
    case False
    with ends have h: "\<not> isWhiteSpace (hd t)" and l: "\<not> isWhiteSpace (last t)" by auto
    have "dropWhile isWhiteSpace s = dropWhile isWhiteSpace (t @ suf)"
      unfolding s using pre by (rule dropWhile_all)
    also have "\<dots> = t @ suf" using False h by (cases t) auto
    finally have d1: "dropWhile isWhiteSpace s = t @ suf" .
    have "dropWhile isWhiteSpace (rev (t @ suf)) = dropWhile isWhiteSpace (rev t)"
      using rsuf by (simp add: dropWhile_all)
    also have "\<dots> = rev t" using False l by (cases "rev t") (auto simp: last_rev hd_rev)
    finally show ?thesis by (simp add: trim_def d1)
  qed
qed


section \<open>The pattern of an e-mail address\<close>

text \<open>The derivative test decides the language of a pattern.\<close>

lemma nullable_lang: "nullable r \<longleftrightarrow> [] \<in> lang r"
proof (induction r)
  case (Plus r)
  show ?case
  proof
    assume "nullable (Plus r)"
    with Plus have "[] \<in> lang r" by simp
    then have "[] = concat [[]] \<and> [[]] \<noteq> [] \<and> set [[]] \<subseteq> lang r" by simp
    then show "[] \<in> lang (Plus r)" unfolding lang.simps by blast
  next
    assume "[] \<in> lang (Plus r)"
    then obtain ws where ws: "concat ws = []" "ws \<noteq> []" "set ws \<subseteq> lang r" by auto
    then obtain w ws' where "ws = w # ws'" by (cases ws) auto
    with ws have "[] \<in> lang r" by auto
    with Plus show "nullable (Plus r)" by simp
  qed
qed auto

lemma concat_Cons_split:
  assumes "concat ws = c # w" and "set ws \<subseteq> L"
  shows "\<exists>u ws'. c # u \<in> L \<and> w = u @ concat ws' \<and> set ws' \<subseteq> L"
  using assms
proof (induction ws)
  case Nil
  then show ?case by simp
next
  case (Cons x xs)
  show ?case
  proof (cases x)
    case Nil
    with Cons show ?thesis by simp
  next
    case (Cons y ys)
    with Cons.prems have "c # ys \<in> L" "w = ys @ concat xs" "set xs \<subseteq> L" by auto
    then show ?thesis by blast
  qed
qed

lemma lang_Plus_Cons:
  "c # w \<in> lang (Plus r) \<longleftrightarrow>
     (\<exists>u v. w = u @ v \<and> c # u \<in> lang r \<and> (v = [] \<or> v \<in> lang (Plus r)))"
proof
  assume "c # w \<in> lang (Plus r)"
  then obtain ws where "concat ws = c # w" "set ws \<subseteq> lang r" by auto
  from concat_Cons_split[OF this] obtain u ws'
    where u: "c # u \<in> lang r" "w = u @ concat ws'" "set ws' \<subseteq> lang r" by blast
  show "\<exists>u v. w = u @ v \<and> c # u \<in> lang r \<and> (v = [] \<or> v \<in> lang (Plus r))"
  proof (cases "ws' = []")
    case True
    with u show ?thesis by auto
  next
    case False
    with u have "concat ws' \<in> lang (Plus r)" by auto
    with u show ?thesis by blast
  qed
next
  assume "\<exists>u v. w = u @ v \<and> c # u \<in> lang r \<and> (v = [] \<or> v \<in> lang (Plus r))"
  then obtain u v where uv: "w = u @ v" "c # u \<in> lang r" "v = [] \<or> v \<in> lang (Plus r)"
    by blast
  from uv(3) show "c # w \<in> lang (Plus r)"
  proof
    assume "v = []"
    with uv have "c # w = concat [c # u] \<and> [c # u] \<noteq> [] \<and> set [c # u] \<subseteq> lang r" by simp
    then show ?thesis unfolding lang.simps by blast
  next
    assume "v \<in> lang (Plus r)"
    then obtain ws where ws: "v = concat ws" "set ws \<subseteq> lang r" by auto
    with uv have "c # w = concat ((c # u) # ws) \<and> (c # u) # ws \<noteq> [] \<and>
        set ((c # u) # ws) \<subseteq> lang r" by simp
    then show ?thesis unfolding lang.simps by blast
  qed
qed

lemma lang_Seq_Cons:
  "c # w \<in> lang (Seq r s) \<longleftrightarrow>
     (\<exists>u v. w = u @ v \<and> c # u \<in> lang r \<and> v \<in> lang s) \<or> ([] \<in> lang r \<and> c # w \<in> lang s)"
proof
  assume "c # w \<in> lang (Seq r s)"
  then obtain u v where uv: "c # w = u @ v" "u \<in> lang r" "v \<in> lang s" by auto
  show "(\<exists>u v. w = u @ v \<and> c # u \<in> lang r \<and> v \<in> lang s) \<or> ([] \<in> lang r \<and> c # w \<in> lang s)"
  proof (cases u)
    case Nil
    with uv show ?thesis by simp
  next
    case (Cons a u')
    with uv have "w = u' @ v" "c # u' \<in> lang r" by auto
    with uv(3) show ?thesis by blast
  qed
next
  assume "(\<exists>u v. w = u @ v \<and> c # u \<in> lang r \<and> v \<in> lang s) \<or> ([] \<in> lang r \<and> c # w \<in> lang s)"
  then show "c # w \<in> lang (Seq r s)"
  proof
    assume "\<exists>u v. w = u @ v \<and> c # u \<in> lang r \<and> v \<in> lang s"
    then obtain u v where "c # w = (c # u) @ v" "c # u \<in> lang r" "v \<in> lang s" by auto
    then show ?thesis unfolding lang.simps by blast
  next
    assume "[] \<in> lang r \<and> c # w \<in> lang s"
    then have "c # w = [] @ (c # w) \<and> [] \<in> lang r \<and> c # w \<in> lang s" by simp
    then show ?thesis unfolding lang.simps by blast
  qed
qed

lemma lang_deriv: "w \<in> lang (deriv c r) \<longleftrightarrow> c # w \<in> lang r"
proof (induction r arbitrary: w)
  case (Seq r s)
  show ?case
    unfolding lang_Seq_Cons using Seq by (auto simp: nullable_lang)
next
  case (Plus r)
  show ?case
    unfolding lang_Plus_Cons using Plus by auto
qed auto

lemma test_lang: "test r w \<longleftrightarrow> w \<in> lang r"
  by (induction w arbitrary: r) (simp_all add: nullable_lang lang_deriv)

lemma lang_Plus_Class: "lang (Plus (Class p)) = {w. w \<noteq> [] \<and> list_all p w}"
proof (intro set_eqI iffI)
  fix w assume "w \<in> lang (Plus (Class p))"
  then obtain ws where ws: "w = concat ws" "ws \<noteq> []" "set ws \<subseteq> lang (Class p)" by auto
  have "set ws \<subseteq> lang (Class p) \<Longrightarrow> list_all p (concat ws) \<and> (ws \<noteq> [] \<longrightarrow> concat ws \<noteq> [])"
    by (induction ws) auto
  with ws show "w \<in> {w. w \<noteq> [] \<and> list_all p w}" by simp
next
  fix w assume "w \<in> {w. w \<noteq> [] \<and> list_all p w}"
  then have w: "w \<noteq> []" "list_all p w" by auto
  have "w = concat (map (\<lambda>c. [c]) w)" by (induction w) auto
  moreover have "map (\<lambda>c. [c]) w \<noteq> []" using w by simp
  moreover have "set (map (\<lambda>c. [c]) w) \<subseteq> lang (Class p)" using w by (auto simp: list_all_iff)
  ultimately show "w \<in> lang (Plus (Class p))" unfolding lang.simps by blast
qed

lemma lang_Seq_lit: "lang (Seq (Class (\<lambda>c. c = a)) r) = {w. \<exists>v. w = a # v \<and> v \<in> lang r}"
  by auto

lemma lang_Seq_part:
  "lang (Seq (Plus (Class notSpaceNorAt)) r) = {w. \<exists>u v. w = u @ v \<and> emailPart u \<and> v \<in> lang r}"
  by (simp only: lang.simps(5) lang_Plus_Class emailPart_def mem_Collect_eq)

lemma lang_re:
  "lang re =
     {e. \<exists>l d t. e = l @ ascii ''@'' @ d @ ascii ''.'' @ t \<and>
        emailPart l \<and> emailPart d \<and> emailPart t}"
proof -
  have t: "lang (Plus (Class notSpaceNorAt)) = {w. emailPart w}"
    unfolding lang_Plus_Class emailPart_def ..
  show ?thesis
    unfolding re_def lang_Seq_part lang_Seq_lit t by (auto simp: ascii_def; blast)
qed

lemma validateEmail_shape:
  "validateEmail e \<longleftrightarrow>
     (\<exists>l d t. e = l @ ascii ''@'' @ d @ ascii ''.'' @ t \<and>
        emailPart l \<and> emailPart d \<and> emailPart t)"
  by (simp add: validateEmail_def test_lang lang_re)


text \<open>
  Claim C9, as the code has it. \<open>validateEmail\<close> accepts \<open>a@b.co\<close> and rejects \<open>a@b\<close>,
  \<open>a b@c.com\<close> and the empty string. It accepts exactly the strings made of a part
  before an \<open>@\<close>, a part between that \<open>@\<close> and some dot, and a part after that dot,
  each part not empty and free of white space and of \<open>@\<close>. The dot need not be the
  last one: the third part may itself hold dots.
\<close>

theorem validateEmail_accepts:
  "validateEmail (ascii ''a@b.co'') \<and> \<not> validateEmail (ascii ''a@b'') \<and>
   \<not> validateEmail (ascii ''a b@c.com'') \<and> \<not> validateEmail [] \<and>
   (validateEmail e \<longleftrightarrow>
      (\<exists>l d t. e = l @ ascii ''@'' @ d @ ascii ''.'' @ t \<and>
         emailPart l \<and> emailPart d \<and> emailPart t))"
proof -
  have "validateEmail (ascii ''a@b.co'')" by (simp add: str_eval)
  moreover have "\<not> validateEmail (ascii ''a@b'')" by (simp add: str_eval)
  moreover have "\<not> validateEmail (ascii ''a b@c.com'')" by (simp add: str_eval)
  moreover have "\<not> validateEmail []" by (simp add: str_eval)
  ultimately show ?thesis using validateEmail_shape [of e] by blast
qed

text \<open>
  The address \<open>a@b.c.\<close> is accepted, split as \<open>a\<close>, \<open>b\<close> and \<open>c.\<close>, although nothing
  follows its last dot.
\<close>

theorem validateEmail_accepts_witness:
  "validateEmail (ascii ''a@b.c.'') \<and> emailPart (ascii ''a'') \<and> emailPart (ascii ''b'') \<and>
   emailPart (ascii ''c.'')"
proof -
  have parts: "emailPart (ascii ''a'')" "emailPart (ascii ''b'')" "emailPart (ascii ''c.'')"
    by (simp_all add: emailPart_def str_eval)
  have "ascii ''a@b.c.'' = ascii ''a'' @ ascii ''@'' @ ascii ''b'' @ ascii ''.'' @ ascii ''c.''"
    by (simp add: ascii_def)
  with parts have "\<exists>l d t. ascii ''a@b.c.'' = l @ ascii ''@'' @ d @ ascii ''.'' @ t \<and>
      emailPart l \<and> emailPart d \<and> emailPart t" by blast
  with validateEmail_accepts [of "ascii ''a@b.c.''"] parts show ?thesis by blast
qed

theorem validateEmail_last_dot_counterexample:
  "validateEmail (ascii ''a@b.c.'') \<and> afterLastDot (ascii ''a@b.c.'') = []"
  by (simp add: afterLastDot_def str_eval)


section \<open>Facts about \<open>encodeURIComponent\<close>\<close>















section \<open>Filtering the students\<close>

lemma matchesSearch_sublist:
  "matchesSearch U q st \<longleftrightarrow>
     sublist (toLowerCase U q) (toLowerCase U (student_name st)) \<or>
     sublist (toLowerCase U q) (toLowerCase U (student_email st))"
  by (simp add: matchesSearch_def includes_js_sublist)

lemma matchesSearch_ascii:
  assumes "asciiTable U" and "isAscii q"
    and "isAscii (student_name st)" and "isAscii (student_email st)"
  shows "matchesSearch U q st \<longleftrightarrow>
     containsIgnoringCase (student_name st) q \<or> containsIgnoringCase (student_email st) q"
  by (simp add: matchesSearch_def includes_js_ascii [OF assms(1,2)] assms(3,4))

lemma matchesCourse_all: "matchesCourse (ascii ''all'') st"
  by (simp add: matchesCourse_def)

lemma matchesCourse_id: "matchesCourse (toString c) st \<longleftrightarrow> courseId st = c"
  using toString_not_all [of c] by (simp add: matchesCourse_def toString_inj)

lemma toString_small:
  "toString (safe 1) = ascii ''1''" "toString (safe 2) = ascii ''2''"
  by (simp_all add: toString_def safe.rep_eq digitsOf.simps digitChar_def ascii_def)

lemmas student_eval = rajesh_def om_def nikosia_def nikos_def matchesSearch_def
  matchesCourse_def filteredStudents_def toString_small [symmetric]

text \<open>
  Claim C6, as the code has it. The filter keeps exactly the students for whom the
  lower-cased search string (\<open>toLowerCase\<close> of the whole string) is a substring of
  the lower-cased name or of the lower-cased e-mail address, all of them for the
  selector \<open>all\<close> and those enrolled in the course for the selector of a course id (the
  id of a student being a safe integer). The result is a subsequence of the input, in
  the input's order; the input is a value the function only reads. When the search
  string, the names and the addresses are ASCII, and with any tables that lower-case
  ASCII as Unicode does, this is the search for a substring that equals the search
  string up to the case of its letters. Among Rajesh Patil (course 1) and Om Patel
  (course 2), searching \<open>pat\<close> gives both for \<open>all\<close>, the first alone for \<open>1\<close> and the
  second alone for \<open>2\<close>; \<open>patel\<close> gives the second for \<open>all\<close> and nobody for \<open>1\<close>;
  \<open>RAJESH\<close> gives the first.
\<close>

theorem filteredStudents_correct:
  "filteredStudents U students q (ascii ''all'') =
     filter (\<lambda>st. sublist (toLowerCase U q) (toLowerCase U (student_name st)) \<or>
                   sublist (toLowerCase U q) (toLowerCase U (student_email st))) students \<and>
   filteredStudents U students q (toString c) =
     filter (\<lambda>st. (sublist (toLowerCase U q) (toLowerCase U (student_name st)) \<or>
                    sublist (toLowerCase U q) (toLowerCase U (student_email st))) \<and>
                   courseId st = c) students \<and>
   subseq (filteredStudents U students q selectedCourse) students \<and>
   (asciiTable U \<and> isAscii q \<and>
    list_all (\<lambda>st. isAscii (student_name st) \<and> isAscii (student_email st)) students \<longrightarrow>
      filteredStudents U students q (ascii ''all'') =
        filter (\<lambda>st. containsIgnoringCase (student_name st) q \<or>
                      containsIgnoringCase (student_email st) q) students \<and>
      filteredStudents U students q (toString c) =
        filter (\<lambda>st. (containsIgnoringCase (student_name st) q \<or>
                       containsIgnoringCase (student_email st) q) \<and> courseId st = c)
          students) \<and>
   filteredStudents ucd [rajesh, om] (ascii ''pat'') (ascii ''all'') = [rajesh, om] \<and>
   filteredStudents ucd [rajesh, om] (ascii ''pat'') (ascii ''1'') = [rajesh] \<and>
   filteredStudents ucd [rajesh, om] (ascii ''pat'') (ascii ''2'') = [om] \<and>
   filteredStudents ucd [rajesh, om] (ascii ''patel'') (ascii ''all'') = [om] \<and>
   filteredStudents ucd [rajesh, om] (ascii ''RAJESH'') (ascii ''all'') = [rajesh] \<and>
   filteredStudents ucd [rajesh, om] (ascii ''patel'') (ascii ''1'') = []"
proof -
  have all: "filteredStudents U students q (ascii ''all'') =
     filter (\<lambda>st. sublist (toLowerCase U q) (toLowerCase U (student_name st)) \<or>
                   sublist (toLowerCase U q) (toLowerCase U (student_email st))) students"
    by (simp add: filteredStudents_def matchesSearch_sublist matchesCourse_all)
  have one: "filteredStudents U students q (toString c) =
     filter (\<lambda>st. (sublist (toLowerCase U q) (toLowerCase U (student_name st)) \<or>
                    sublist (toLowerCase U q) (toLowerCase U (student_email st))) \<and>
                   courseId st = c) students"
    by (simp add: filteredStudents_def matchesSearch_sublist matchesCourse_id)
  have sub: "subseq (filteredStudents U students q selectedCourse) students"
    by (simp add: filteredStudents_def)
  have asc: "filteredStudents U students q (ascii ''all'') =
        filter (\<lambda>st. containsIgnoringCase (student_name st) q \<or>
                      containsIgnoringCase (student_email st) q) students \<and>
      filteredStudents U students q (toString c) =
        filter (\<lambda>st. (containsIgnoringCase (student_name st) q \<or>
                       containsIgnoringCase (student_email st) q) \<and> courseId st = c)
          students"
    if U: "asciiTable U" and q: "isAscii q"
      and s: "list_all (\<lambda>st. isAscii (student_name st) \<and> isAscii (student_email st)) students"
  proof -
    have m: "matchesSearch U q st \<longleftrightarrow>
        containsIgnoringCase (student_name st) q \<or> containsIgnoringCase (student_email st) q"
      if "st \<in> set students" for st
      using s that by (intro matchesSearch_ascii [OF U q]) (auto simp: list_all_iff)
    have "filteredStudents U students q (ascii ''all'') =
        filter (\<lambda>st. containsIgnoringCase (student_name st) q \<or>
                      containsIgnoringCase (student_email st) q) students"
      unfolding filteredStudents_def
      by (rule filter_cong [OF refl]) (simp add: m matchesCourse_all)
    moreover have "filteredStudents U students q (toString c) =
        filter (\<lambda>st. (containsIgnoringCase (student_name st) q \<or>
                       containsIgnoringCase (student_email st) q) \<and> courseId st = c)
          students"
      unfolding filteredStudents_def
      by (rule filter_cong [OF refl]) (simp add: m matchesCourse_id)
    ultimately show ?thesis by simp
  qed
  have l1: "filteredStudents ucd [rajesh, om] (ascii ''pat'') (ascii ''all'') = [rajesh, om]"
    by (simp add: student_eval str_eval)
  have l2: "filteredStudents ucd [rajesh, om] (ascii ''pat'') (ascii ''1'') = [rajesh]"
    by (simp add: student_eval str_eval safe.rep_eq toString_def digitsOf.simps digitChar_def)
  have l3: "filteredStudents ucd [rajesh, om] (ascii ''pat'') (ascii ''2'') = [om]"
    by (simp add: student_eval str_eval safe.rep_eq toString_def digitsOf.simps digitChar_def)
  have l4: "filteredStudents ucd [rajesh, om] (ascii ''patel'') (ascii ''all'') = [om]"
    by (simp add: student_eval str_eval)
  have l5: "filteredStudents ucd [rajesh, om] (ascii ''RAJESH'') (ascii ''all'') = [rajesh]"
    by (simp add: student_eval str_eval)
  have l6: "filteredStudents ucd [rajesh, om] (ascii ''patel'') (ascii ''1'') = []"
    by (simp add: student_eval str_eval safe.rep_eq toString_def digitsOf.simps digitChar_def)
  have asc': "asciiTable U \<and> isAscii q \<and>
    list_all (\<lambda>st. isAscii (student_name st) \<and> isAscii (student_email st)) students \<longrightarrow>
      filteredStudents U students q (ascii ''all'') =
        filter (\<lambda>st. containsIgnoringCase (student_name st) q \<or>
                      containsIgnoringCase (student_email st) q) students \<and>
      filteredStudents U students q (toString c) =
        filter (\<lambda>st. (containsIgnoringCase (student_name st) q \<or>
                       containsIgnoringCase (student_email st) q) \<and> courseId st = c)
          students"
    using asc by blast
  show ?thesis
    by (intro conjI) (fact all one sub asc' l1 l2 l3 l4 l5 l6)+
qed

text \<open>
  With the tables \<open>ucd\<close>, searching \<open>PATEL\<close> under the selector \<open>2\<close> among the two
  students: the filter and the search up to case both give Om Patel.
\<close>

theorem filteredStudents_correct_witness:
  "asciiTable ucd \<and> isAscii (ascii ''PATEL'') \<and>
   list_all (\<lambda>st. isAscii (student_name st) \<and> isAscii (student_email st)) [rajesh, om] \<and>
   toString (safe 2) = ascii ''2'' \<and>
   filteredStudents ucd [rajesh, om] (ascii ''PATEL'') (ascii ''2'') = [om] \<and>
   filter (\<lambda>st. (containsIgnoringCase (student_name st) (ascii ''PATEL'') \<or>
                  containsIgnoringCase (student_email st) (ascii ''PATEL'')) \<and>
                 courseId st = safe 2) [rajesh, om] = [om]"
proof -
  have a: "asciiTable ucd" by (rule asciiTable_ucd)
  have q: "isAscii (ascii ''PATEL'')" by (simp add: isAscii_def ascii_def)
  have s: "list_all (\<lambda>st. isAscii (student_name st) \<and> isAscii (student_email st)) [rajesh, om]"
    by (simp add: isAscii_def ascii_def rajesh_def om_def)
  have t: "toString (safe 2) = ascii ''2''" by (rule toString_small)
  have f: "filteredStudents ucd [rajesh, om] (ascii ''PATEL'') (ascii ''2'') = [om]"
    by (simp add: student_eval str_eval safe.rep_eq toString_def digitsOf.simps digitChar_def)
  from filteredStudents_correct [of ucd "[rajesh, om]" "ascii ''PATEL''" "safe 2"] a q s
  have "filteredStudents ucd [rajesh, om] (ascii ''PATEL'') (toString (safe 2)) =
      filter (\<lambda>st. (containsIgnoringCase (student_name st) (ascii ''PATEL'') \<or>
                     containsIgnoringCase (student_email st) (ascii ''PATEL'')) \<and>
                    courseId st = safe 2) [rajesh, om]"
    by blast
  with a q s t f show ?thesis by (simp only:)
qed

lemma sameLetter_refl: "list_all2 sameLetter s s"
  by (simp add: list_all2_same sameLetter_def)

text \<open>
  Outside ASCII the two searches differ. The name NIKOSIA, in Greek capitals, holds the
  search string NIKOS verbatim; but the sigma that ends the search string is lower-cased
  to the final sigma (U+03C2), the sigma inside the name to the plain one (U+03C3), and
  the filter drops the student.
\<close>

theorem filteredStudents_sigma_counterexample:
  "sublist nikos (student_name nikosia) \<and>
   containsIgnoringCase (student_name nikosia) nikos \<and>
   toLowerCase ucd nikos = [0x3BD, 0x3B9, 0x3BA, 0x3BF, 0x3C2] \<and>
   toLowerCase ucd (student_name nikosia) = [0x3BD, 0x3B9, 0x3BA, 0x3BF, 0x3C3, 0x3B9, 0x3B1] \<and>
   filteredStudents ucd [nikosia] nikos (ascii ''all'') = []"
proof -
  have s: "sublist nikos (student_name nikosia)"
    by (simp add: nikosia_def)
  then have c: "containsIgnoringCase (student_name nikosia) nikos"
    unfolding containsIgnoringCase_def using sameLetter_refl by blast
  have q: "toLowerCase ucd nikos = [0x3BD, 0x3B9, 0x3BA, 0x3BF, 0x3C2]"
    by (simp add: nikos_def str_eval)
  have n: "toLowerCase ucd (student_name nikosia) =
      [0x3BD, 0x3B9, 0x3BA, 0x3BF, 0x3C3, 0x3B9, 0x3B1]"
    by (simp add: nikosia_def nikos_def str_eval)
  have f: "filteredStudents ucd [nikosia] nikos (ascii ''all'') = []"
    by (simp add: student_eval str_eval)
  show ?thesis
    by (intro conjI) (fact s c q n f)+
qed


section \<open>Submitting the form\<close>








section \<open>The statistics\<close>

lemma Math_round_div:
  assumes "0 < m"
  shows "Math_round (of_nat n / of_nat m) = (2 * int n + int m) div (2 * int m)"
proof -
  have "(of_nat n :: rat) / of_nat m + 1 / 2 = of_int (2 * int n + int m) / of_int (2 * int m)"
    using assms by (simp add: field_simps)
  then show ?thesis
    unfolding Math_round_def by (simp only: floor_divide_of_int_eq)
qed

text \<open>
  Claim C5, as the code has it. The statistics report the number of students, the
  number of courses, the number of students enrolled less than 30 days before \<open>now\<close>,
  and the students per course rounded to the nearest integer (a half rounds up), or 0
  when there is no course. A student whose \<open>createdAt\<close> is later than \<open>now\<close> counts as
  recent too: the recent enrolments are those of the trailing 30-day window and those
  dated after \<open>now\<close>. Students enrolled 10, 40 and 5 days ago and two courses give
  3, 2, 2 and 2.
\<close>

theorem dashboardStats_correct:
  "totalStudents (dashboardStats students cs now) = length students \<and>
   totalCourses (dashboardStats students cs now) = length cs \<and>
   recentEnrollments (dashboardStats students cs now) =
     length (filter (\<lambda>st. now - 30 * dayMs < createdAt st) students) \<and>
   recentEnrollments (dashboardStats students cs now) =
     length (filter (\<lambda>st. inTrailingWindow now (createdAt st)) students) +
     length (filter (\<lambda>st. now < createdAt st) students) \<and>
   averagePerCourse (dashboardStats students cs now) =
     (if length cs = 0 then 0
      else Math_round (of_nat (length students) / of_nat (length cs))) \<and>
   averagePerCourse (dashboardStats students cs now) =
     (if length cs = 0 then 0
      else (2 * int (length students) + int (length cs)) div (2 * int (length cs))) \<and>
   dashboardStats (threeStudents now) twoCourses now =
     \<lparr> totalStudents = 3, totalCourses = 2, recentEnrollments = 2, averagePerCourse = 2 \<rparr>"
proof -
  let ?s = "dashboardStats students cs now"
  have ms: "(30 * 24 * 60 * 60 * 1000 :: int) = 30 * dayMs" by (simp add: dayMs_def)
  have r: "recentEnrollments ?s =
      length (filter (\<lambda>st. now - 30 * dayMs < createdAt st) students)"
  proof -
    have eq: "(now - createdAt st < 30 * dayMs) = (now - 30 * dayMs < createdAt st)" for st
      by auto
    show ?thesis unfolding dashboardStats_def Let_def ms eq by simp
  qed
  have "length (filter (\<lambda>st. now - 30 * dayMs < createdAt st) students) =
      length (filter (\<lambda>st. inTrailingWindow now (createdAt st)) students) +
      length (filter (\<lambda>st. now < createdAt st) students)"
    by (induction students) (auto simp: inTrailingWindow_def dayMs_def)
  with r have w: "recentEnrollments ?s =
      length (filter (\<lambda>st. inTrailingWindow now (createdAt st)) students) +
      length (filter (\<lambda>st. now < createdAt st) students)" by simp
  have a: "averagePerCourse ?s =
      (if length cs = 0 then 0 else Math_round (of_nat (length students) / of_nat (length cs)))"
    by (simp add: dashboardStats_def Let_def)
  have a': "averagePerCourse ?s =
      (if length cs = 0 then 0
       else (2 * int (length students) + int (length cs)) div (2 * int (length cs)))"
    unfolding a using Math_round_div [of "length cs" "length students"] by simp
  have lit: "dashboardStats (threeStudents now) twoCourses now =
      \<lparr> totalStudents = 3, totalCourses = 2, recentEnrollments = 2, averagePerCourse = 2 \<rparr>"
    by (simp add: dashboardStats_def threeStudents_def twoCourses_def enrolled_def dayMs_def
        Math_round_def Let_def)
  have "totalStudents ?s = length students" "totalCourses ?s = length cs"
    by (simp_all add: dashboardStats_def Let_def)
  with r w a a' lit show ?thesis by (simp only:) 
qed

theorem dashboardStats_correct_witness:
  "dashboardStats [rajesh, om] ([] :: course list) 1741564800000 =
     \<lparr> totalStudents = 2, totalCourses = 0, recentEnrollments = 1, averagePerCourse = 0 \<rparr> \<and>
   length (filter (\<lambda>st. inTrailingWindow 1741564800000 (createdAt st)) [rajesh, om]) = 1"
proof -
  let ?s = "dashboardStats [rajesh, om] ([] :: course list) 1741564800000"
  have w: "length (filter (\<lambda>st. inTrailingWindow 1741564800000 (createdAt st)) [rajesh, om]) = 1"
    by (simp add: inTrailingWindow_def rajesh_def om_def dayMs_def)
  have f: "length (filter (\<lambda>st. 1741564800000 < createdAt st) [rajesh, om]) = 0"
    by (simp add: rajesh_def om_def)
  from dashboardStats_correct [of "[rajesh, om]" "[] :: course list" 1741564800000] w f
  have "totalStudents ?s = 2" "totalCourses ?s = 0" "recentEnrollments ?s = 1"
    "averagePerCourse ?s = 0" by simp_all
  then have "?s = \<lparr> totalStudents = 2, totalCourses = 0, recentEnrollments = 1,
      averagePerCourse = 0 \<rparr>" by (cases ?s) simp
  with w show ?thesis by simp
qed

text \<open>
  With the clock one day before an enrolment date, the student is counted as a recent
  enrolment although the date is not in the 30 days that end now.
\<close>

theorem dashboardStats_future_counterexample:
  "recentEnrollments (dashboardStats [rajesh] twoCourses 1736812800000) = 1 \<and>
   length (filter (\<lambda>st. inTrailingWindow 1736812800000 (createdAt st)) [rajesh]) = 0"
  by (simp add: dashboardStats_def inTrailingWindow_def rajesh_def dayMs_def Let_def)

section \<open>The store and the catalog\<close>

lemma deref_append: "a < length h \<Longrightarrow> deref (h @ xs) a = deref h a"
  by (simp add: deref_def nth_append)

lemma deref_update:
  "deref (h[a := x]) b = (if b = a \<and> a < length h then Some x else deref h b)"
  by (simp add: deref_def)

lemma catalogInvariant_module: "catalogInvariant module_heap"
  by (simp add: catalogInvariant_def module_heap_def COURSES_DATA_def deref_def courseAt_def)

lemma catalogInvariant_iff:
  "catalogInvariant h \<longleftrightarrow>
     deref h 4 = Some (ArrayObj [0, 1, 2, 3]) \<and>
     (\<forall>a<4. \<exists>c. deref h a = Some (CourseObj c))"
proof -
  have c: "(\<exists>y. courseAt h a = Some y) \<longleftrightarrow> (\<exists>c. deref h a = Some (CourseObj c))" for a
    by (auto simp: courseAt_def split: option.splits obj.splits)
  have four: "(\<forall>a<4. P a) \<longleftrightarrow> P 0 \<and> P 1 \<and> P 2 \<and> P (3::nat)" for P
  proof
    assume "\<forall>a<4. P a" then show "P 0 \<and> P 1 \<and> P 2 \<and> P 3" by simp
  next
    assume p: "P 0 \<and> P 1 \<and> P 2 \<and> P 3"
    show "\<forall>a<4. P a"
    proof (intro allI impI)
      fix a :: nat assume "a < 4"
      then have "a = 0 \<or> a = 1 \<or> a = 2 \<or> a = 3" by arith
      with p show "P a" by auto
    qed
  qed
  show ?thesis
    unfolding catalogInvariant_def COURSES_DATA_def four by (simp add: c)
qed

lemma catalogInvariant_length: "catalogInvariant h \<Longrightarrow> 4 < length h"
  by (simp add: catalogInvariant_iff deref_def split: if_splits)

lemma catalogInvariant_alloc:
  assumes "catalogInvariant h"
  shows "catalogInvariant (snd (alloc ob h))"
  using assms catalogInvariant_length [OF assms]
  by (simp add: catalogInvariant_iff alloc_def deref_append)

lemma catalogInvariant_writeCourse:
  assumes "catalogInvariant h"
  shows "catalogInvariant (writeCourse a c h)"
proof (cases "\<exists>c'. deref h a = Some (CourseObj c')")
  case False
  then have "writeCourse a c h = h"
    by (auto simp: writeCourse_def split: option.splits obj.splits)
  with assms show ?thesis by simp
next
  case True
  then have w: "writeCourse a c h = h[a := CourseObj c]" and a: "a \<noteq> 4"
    using assms by (auto simp: writeCourse_def catalogInvariant_iff)
  show ?thesis
    unfolding w catalogInvariant_iff deref_update using assms a
    by (auto simp: catalogInvariant_iff)
qed

lemma catalogInvariant_writeArray:
  assumes "catalogInvariant h" and "a \<noteq> COURSES_DATA"
  shows "catalogInvariant (writeArray a es h)"
proof (cases "\<exists>es'. deref h a = Some (ArrayObj es')")
  case False
  then have "writeArray a es h = h"
    by (auto simp: writeArray_def split: option.splits obj.splits)
  with assms show ?thesis by simp
next
  case True
  then obtain es' where d: "deref h a = Some (ArrayObj es')" by blast
  then have w: "writeArray a es h = h[a := ArrayObj es]" by (simp add: writeArray_def)
  have a4: "a \<noteq> 4" using assms(2) by (simp add: COURSES_DATA_def)
  have "\<not> a < 4"
  proof
    assume "a < 4"
    with assms(1) obtain c where "deref h a = Some (CourseObj c)"
      unfolding catalogInvariant_iff by blast
    with d show False by simp
  qed
  then show ?thesis
    unfolding w catalogInvariant_iff deref_update using assms(1) a4
    by (auto simp: catalogInvariant_iff)
qed

lemma getCourses_success:
  assumes "\<not> random < 1 / 10"
  shows "getCourses random h = (Inr (length h), h @ [ArrayObj (elements h COURSES_DATA)])"
  using assms by (simp add: getCourses_def spread_def alloc_def)

lemma getCourses_failure:
  assumes "random < 1 / 10"
  shows "getCourses random h = (Inl (Error ''Network error: Unable to fetch courses''), h)"
  using assms by (simp add: getCourses_def)

lemma catalogInvariant_getCourses:
  assumes "catalogInvariant h"
  shows "catalogInvariant (snd (getCourses random h))"
proof (cases "random < 1 / 10")
  case True
  with assms show ?thesis by (simp add: getCourses_failure)
next
  case False
  have "snd (getCourses random h) = snd (alloc (ArrayObj (elements h COURSES_DATA)) h)"
    using False by (simp add: getCourses_success alloc_def)
  with catalogInvariant_alloc [OF assms] show ?thesis by simp
qed

lemma reachable_catalogInvariant: "reachable h \<Longrightarrow> catalogInvariant h"
proof (induction rule: reachable.induct)
  case module_loaded
  show ?case by (rule catalogInvariant_module)
next
  case (called_getCourses h random)
  from called_getCourses.IH show ?case by (rule catalogInvariant_getCourses)
next
  case (wrote_course h a c)
  from wrote_course.IH show ?case by (rule catalogInvariant_writeCourse)
next
  case (wrote_array h a es)
  from wrote_array.IH wrote_array.hyps(2) show ?case by (rule catalogInvariant_writeArray)
next
  case (allocated h ob)
  from allocated.IH show ?case by (rule catalogInvariant_alloc)
qed

lemma reachable_catalog_array: "reachable h \<Longrightarrow> elements h COURSES_DATA = [0, 1, 2, 3]"
  by (drule reachable_catalogInvariant) (simp add: catalogInvariant_def elements_def)

lemma elements_append: "a < length h \<Longrightarrow> elements (h @ xs) a = elements h a"
  by (simp add: elements_def deref_append)

lemma courseAt_append: "a < length h \<Longrightarrow> courseAt (h @ xs) a = courseAt h a"
  by (simp add: courseAt_def deref_append)

lemma elements_new: "elements (h @ [ArrayObj es]) (length h) = es"
  by (simp add: elements_def deref_def)

lemma writeArray_other:
  "b \<noteq> a \<Longrightarrow> deref (writeArray a es h) b = deref h b"
  by (simp add: writeArray_def deref_update split: option.splits obj.splits)


lemma readCourses_append: 
  assumes "catalogInvariant h"
  shows "readCourses (h @ xs) COURSES_DATA = readCourses h COURSES_DATA"
proof -
  have l: "4 < length h" using assms by (rule catalogInvariant_length)
  have e: "elements h COURSES_DATA = [0, 1, 2, 3]"
    using assms by (simp add: catalogInvariant_def elements_def)
  have e': "elements (h @ xs) COURSES_DATA = [0, 1, 2, 3]"
    using e l by (simp add: elements_append COURSES_DATA_def)
  have c: "courseAt (h @ xs) a = courseAt h a" if "a \<le> 3" for a
    using that l by (intro courseAt_append) linarith
  show ?thesis unfolding readCourses_def e e' by (simp add: c)
qed

text \<open>
  Claim C1. In every store that holds the catalog as the module built it (every
  store a program can reach is such), one call of \<open>getCourses\<close> is decided by its one
  random sample. Below 0.1 it rejects with the error whose message is
  \<open>Network error: Unable to fetch courses\<close>, and the store is unchanged. Otherwise it
  resolves with a new array (its address was not allocated before, and is not
  \<open>COURSES_DATA\<close>) that holds the elements of the catalog, all four, in the catalog's
  order, so that it reads as the catalog reads; the catalog is unchanged. On the
  module's own store the result reads as the four courses of the source.
\<close>

theorem getCourses_outcome:
  assumes "catalogInvariant h"
  shows "(random < 1 / 10 \<longrightarrow>
            getCourses random h = (Inl (Error ''Network error: Unable to fetch courses''), h)) \<and>
         (\<not> random < 1 / 10 \<longrightarrow>
            (\<exists>a h'. getCourses random h = (Inr a, h') \<and>
               deref h a = None \<and> a \<noteq> COURSES_DATA \<and>
               elements h' a = elements h COURSES_DATA \<and>
               length (elements h' a) = 4 \<and>
               readCourses h' a = readCourses h COURSES_DATA \<and>
               readCourses h' COURSES_DATA = readCourses h COURSES_DATA)) \<and>
         (\<not> random < 1 / 10 \<longrightarrow>
            (\<exists>a h'. getCourses random module_heap = (Inr a, h') \<and>
               readCourses h' a =
                 [Some \<lparr> course_id = 1, course_name = ''HTML Basics'' \<rparr>,
                  Some \<lparr> course_id = 2, course_name = ''CSS Mastery'' \<rparr>,
                  Some \<lparr> course_id = 3, course_name = ''JavaScript Pro'' \<rparr>,
                  Some \<lparr> course_id = 4, course_name = ''React In Depth'' \<rparr>]))"
proof (intro conjI impI)
  assume "random < 1 / 10"
  then show "getCourses random h = (Inl (Error ''Network error: Unable to fetch courses''), h)"
    by (rule getCourses_failure)
next
  assume ok: "\<not> random < 1 / 10"
  let ?a = "length h"
  define h' where "h' = h @ [ArrayObj (elements h COURSES_DATA)]"
  have inv: "catalogInvariant h" by (rule assms)
  have l: "4 < length h" using inv by (rule catalogInvariant_length)
  have e: "elements h COURSES_DATA = [0, 1, 2, 3]"
    using inv by (simp add: catalogInvariant_def elements_def)
  have new: "elements h' ?a = elements h COURSES_DATA" unfolding h'_def by (rule elements_new)
  have c: "courseAt h' a = courseAt h a" if "a \<le> 3" for a
    unfolding h'_def using that l by (intro courseAt_append) linarith
  have "readCourses h' ?a = map (courseAt h') [0, 1, 2, 3]"
    by (simp only: readCourses_def new e)
  also have "\<dots> = map (courseAt h) [0, 1, 2, 3]" by (simp add: c)
  also have "\<dots> = readCourses h COURSES_DATA" by (simp only: readCourses_def e)
  finally have r: "readCourses h' ?a = readCourses h COURSES_DATA" .
  have "getCourses random h = (Inr ?a, h')"
    unfolding h'_def using ok by (rule getCourses_success)
  moreover have "deref h ?a = None" by (simp add: deref_def)
  moreover have "?a \<noteq> COURSES_DATA" using l by (simp add: COURSES_DATA_def)
  moreover have "length (elements h' ?a) = 4" by (simp add: new e)
  moreover have "readCourses h' COURSES_DATA = readCourses h COURSES_DATA"
    unfolding h'_def using inv by (rule readCourses_append)
  ultimately show "\<exists>a h'. getCourses random h = (Inr a, h') \<and>
               deref h a = None \<and> a \<noteq> COURSES_DATA \<and>
               elements h' a = elements h COURSES_DATA \<and>
               length (elements h' a) = 4 \<and>
               readCourses h' a = readCourses h COURSES_DATA \<and>
               readCourses h' COURSES_DATA = readCourses h COURSES_DATA"
    using new r by blast
next
  assume ok: "\<not> random < 1 / 10"
  have "getCourses random module_heap =
      (Inr (length module_heap), module_heap @ [ArrayObj (elements module_heap COURSES_DATA)])"
    using ok by (rule getCourses_success)
  moreover have "readCourses (module_heap @ [ArrayObj (elements module_heap COURSES_DATA)])
      (length module_heap) =
      [Some \<lparr> course_id = 1, course_name = ''HTML Basics'' \<rparr>,
       Some \<lparr> course_id = 2, course_name = ''CSS Mastery'' \<rparr>,
       Some \<lparr> course_id = 3, course_name = ''JavaScript Pro'' \<rparr>,
       Some \<lparr> course_id = 4, course_name = ''React In Depth'' \<rparr>]"
    by (simp add: readCourses_def elements_def courseAt_def deref_def module_heap_def
        COURSES_DATA_def)
  ultimately show "\<exists>a h'. getCourses random module_heap = (Inr a, h') \<and>
               readCourses h' a =
                 [Some \<lparr> course_id = 1, course_name = ''HTML Basics'' \<rparr>,
                  Some \<lparr> course_id = 2, course_name = ''CSS Mastery'' \<rparr>,
                  Some \<lparr> course_id = 3, course_name = ''JavaScript Pro'' \<rparr>,
                  Some \<lparr> course_id = 4, course_name = ''React In Depth'' \<rparr>]"
    by blast
qed

theorem getCourses_outcome_witness:
  "catalogInvariant afterFirstCall \<and>
   getCourses (1 / 20) afterFirstCall =
     (Inl (Error ''Network error: Unable to fetch courses''), afterFirstCall) \<and>
   (\<exists>a h'. getCourses (1 / 2) afterFirstCall = (Inr a, h') \<and>
      deref afterFirstCall a = None \<and> length (elements h' a) = 4 \<and>
      readCourses h' a = readCourses afterFirstCall COURSES_DATA)"
proof -
  have r: "catalogInvariant afterFirstCall" by code_simp
  have lt: "(1 / 20 :: rat) < 1 / 10" and ge: "\<not> (1 / 2 :: rat) < 1 / 10" by simp_all
  from getCourses_outcome [OF r, of "1 / 20"] lt
  have "getCourses (1 / 20) afterFirstCall =
     (Inl (Error ''Network error: Unable to fetch courses''), afterFirstCall)" by blast
  moreover from getCourses_outcome [OF r, of "1 / 2"] ge
  have "\<exists>a h'. getCourses (1 / 2) afterFirstCall = (Inr a, h') \<and>
      deref afterFirstCall a = None \<and> length (elements h' a) = 4 \<and>
      readCourses h' a = readCourses afterFirstCall COURSES_DATA" by blast
  ultimately show ?thesis using r by blast
qed

lemma find_catalog:
  "find P [0, 1, 2, 3 :: nat] =
     (if P 0 then Some 0 else if P 1 then Some 1 else if P 2 then Some 2
      else if P 3 then Some 3 else None)"
  by simp

text \<open>
  Claim C8. \<open>getCourseById\<close> has no failing path: for every integer \<open>id\<close> and every
  store it returns either a course object of the catalog whose \<open>id\<close> is the one asked
  for, or \<open>null\<close>, and \<open>null\<close> only when no course of the catalog has that \<open>id\<close>. On
  the module's own store the ids 1 to 4 give the four courses of the source and every
  other integer gives \<open>null\<close>.
\<close>

theorem getCourseById_result:
  "(case getCourseById i h of
      Some a \<Rightarrow> a \<in> set (elements h COURSES_DATA) \<and>
                (\<exists>c. courseAt h a = Some c \<and> course_id c = i)
    | None \<Rightarrow> \<not> (\<exists>a c. a \<in> set (elements h COURSES_DATA) \<and>
                          courseAt h a = Some c \<and> course_id c = i)) \<and>
   getCourseById i module_heap =
     (if i = 1 then Some 0 else if i = 2 then Some 1 else if i = 3 then Some 2
      else if i = 4 then Some 3 else None) \<and>
   map (courseAt module_heap) [0, 1, 2, 3] =
     [Some \<lparr> course_id = 1, course_name = ''HTML Basics'' \<rparr>,
      Some \<lparr> course_id = 2, course_name = ''CSS Mastery'' \<rparr>,
      Some \<lparr> course_id = 3, course_name = ''JavaScript Pro'' \<rparr>,
      Some \<lparr> course_id = 4, course_name = ''React In Depth'' \<rparr>]"
proof (intro conjI)
  let ?P = "\<lambda>a. case courseAt h a of Some c \<Rightarrow> course_id c = i | None \<Rightarrow> False"
  have g: "getCourseById i h = find ?P (elements h COURSES_DATA)"
    by (simp add: getCourseById_def split: option.splits)
  show "case getCourseById i h of
      Some a \<Rightarrow> a \<in> set (elements h COURSES_DATA) \<and>
                (\<exists>c. courseAt h a = Some c \<and> course_id c = i)
    | None \<Rightarrow> \<not> (\<exists>a c. a \<in> set (elements h COURSES_DATA) \<and>
                          courseAt h a = Some c \<and> course_id c = i)"
  proof (cases "find ?P (elements h COURSES_DATA)")
    case None
    then have "\<forall>a \<in> set (elements h COURSES_DATA). \<not> ?P a" by (simp add: find_None_iff)
    then have "\<not> (\<exists>a c. a \<in> set (elements h COURSES_DATA) \<and>
        courseAt h a = Some c \<and> course_id c = i)" by force
    with None g show ?thesis by simp
  next
    case (Some a)
    then have "a \<in> set (elements h COURSES_DATA)" "?P a"
      by (auto simp: find_Some_iff)
    then have "a \<in> set (elements h COURSES_DATA) \<and>
        (\<exists>c. courseAt h a = Some c \<and> course_id c = i)"
      by (auto split: option.splits)
    with Some g show ?thesis by simp
  qed
next
  have e: "elements module_heap COURSES_DATA = [0, 1, 2, 3]"
    by (simp add: elements_def deref_def module_heap_def COURSES_DATA_def)
  show "getCourseById i module_heap =
     (if i = 1 then Some 0 else if i = 2 then Some 1 else if i = 3 then Some 2
      else if i = 4 then Some 3 else None)"
    unfolding getCourseById_def e find_catalog
    by (simp add: courseAt_def deref_def module_heap_def)
next
  show "map (courseAt module_heap) [0, 1, 2, 3] =
     [Some \<lparr> course_id = 1, course_name = ''HTML Basics'' \<rparr>,
      Some \<lparr> course_id = 2, course_name = ''CSS Mastery'' \<rparr>,
      Some \<lparr> course_id = 3, course_name = ''JavaScript Pro'' \<rparr>,
      Some \<lparr> course_id = 4, course_name = ''React In Depth'' \<rparr>]"
    by (simp add: courseAt_def deref_def module_heap_def)
qed

theorem getCourseById_result_witness:
  "getCourseById 3 module_heap = Some 2 \<and>
   courseAt module_heap 2 = Some \<lparr> course_id = 3, course_name = ''JavaScript Pro'' \<rparr> \<and>
   getCourseById 7 module_heap = None \<and>
   getCourseById 1 afterRename = Some 0 \<and> courseAt afterRename 0 = Some renamed"
proof -
  from getCourseById_result [where i = 3 and h = module_heap]
  have "getCourseById 3 module_heap = Some 2"
    "courseAt module_heap 2 = Some \<lparr> course_id = 3, course_name = ''JavaScript Pro'' \<rparr>"
    by simp_all
  moreover from getCourseById_result [where i = 7 and h = module_heap]
  have "getCourseById 7 module_heap = None" by simp
  moreover have "getCourseById 1 afterRename = Some 0" "courseAt afterRename 0 = Some renamed"
    by code_simp+
  ultimately show ?thesis by simp
qed

lemma writeArray_elsewhere: "b \<noteq> a \<Longrightarrow> elements (writeArray a es h) b = elements h b"
  by (simp add: elements_def writeArray_other)

text \<open>
  The array a call returns is its caller's own: whatever the caller writes into it, the
  catalog array and every other array keep their elements.
\<close>

lemma getCourses_array_isolated:
  assumes "reachable h" and "getCourses random h = (Inr a, h')" and "b \<noteq> a"
  shows "elements (writeArray a es h') b = elements h' b"
    and "elements (writeArray a es h') COURSES_DATA = [0, 1, 2, 3]"
proof -
  show "elements (writeArray a es h') b = elements h' b"
    using assms(3) by (rule writeArray_elsewhere)
  have ok: "\<not> random < 1 / 10" using assms(2) by (auto simp: getCourses_def)
  have "a = length h" using assms(2) ok by (simp add: getCourses_success)
  moreover have "4 < length h"
    using assms(1) by (intro catalogInvariant_length reachable_catalogInvariant)
  ultimately have ne: "a \<noteq> COURSES_DATA" by (simp add: COURSES_DATA_def)
  have "reachable h'" using called_getCourses [OF assms(1), of random] assms(2) by simp
  then have "reachable (writeArray a es h')" using ne by (rule wrote_array)
  then show "elements (writeArray a es h') COURSES_DATA = [0, 1, 2, 3]"
    by (rule reachable_catalog_array)
qed

text \<open>
  Claim C7, at a failing input. Two successive calls return two new arrays, at
  different addresses, that read alike. Their elements, though, are the course objects
  of the catalog themselves, and so is the object \<open>getCourseById\<close> returns: when the
  caller of the first call renames the first course of its result, the second result,
  the catalog and every later call show the new name.
\<close>

theorem getCourses_shares_course_objects:
  "fst (getCourses (1 / 2) module_heap) = Inr 5 \<and>
   fst (getCourses (1 / 2) afterFirstCall) = Inr 6 \<and>
   elements afterSecondCall 5 = elements afterSecondCall COURSES_DATA \<and>
   elements afterSecondCall 6 = elements afterSecondCall COURSES_DATA \<and>
   getCourseById 1 afterSecondCall = Some (elements afterSecondCall 5 ! 0) \<and>
   courseAt afterSecondCall 0 = Some \<lparr> course_id = 1, course_name = ''HTML Basics'' \<rparr> \<and>
   afterRename = writeCourse (elements afterSecondCall 5 ! 0) renamed afterSecondCall \<and>
   readCourses afterRename 6 =
     [Some \<lparr> course_id = 1, course_name = ''Renamed'' \<rparr>,
      Some \<lparr> course_id = 2, course_name = ''CSS Mastery'' \<rparr>,
      Some \<lparr> course_id = 3, course_name = ''JavaScript Pro'' \<rparr>,
      Some \<lparr> course_id = 4, course_name = ''React In Depth'' \<rparr>] \<and>
   readCourses afterRename COURSES_DATA = readCourses afterRename 6 \<and>
   readCourses afterRename COURSES_DATA \<noteq> readCourses afterSecondCall COURSES_DATA \<and>
   (\<exists>a h'. getCourses (1 / 2) afterRename = (Inr a, h') \<and>
      readCourses h' a = readCourses afterRename COURSES_DATA)"
proof -
  have 1: "fst (getCourses (1 / 2) module_heap) = Inr 5" by code_simp
  have 2: "fst (getCourses (1 / 2) afterFirstCall) = Inr 6" by code_simp
  have 3: "elements afterSecondCall 5 = elements afterSecondCall COURSES_DATA" by code_simp
  have 4: "elements afterSecondCall 6 = elements afterSecondCall COURSES_DATA" by code_simp
  have 5: "getCourseById 1 afterSecondCall = Some (elements afterSecondCall 5 ! 0)" by code_simp
  have 6: "courseAt afterSecondCall 0 = Some \<lparr> course_id = 1, course_name = ''HTML Basics'' \<rparr>"
    by code_simp
  have 7: "afterRename = writeCourse (elements afterSecondCall 5 ! 0) renamed afterSecondCall"
    by (rule afterRename_def)
  have 8: "readCourses afterRename 6 =
     [Some \<lparr> course_id = 1, course_name = ''Renamed'' \<rparr>,
      Some \<lparr> course_id = 2, course_name = ''CSS Mastery'' \<rparr>,
      Some \<lparr> course_id = 3, course_name = ''JavaScript Pro'' \<rparr>,
      Some \<lparr> course_id = 4, course_name = ''React In Depth'' \<rparr>]" by code_simp
  have 9: "readCourses afterRename COURSES_DATA = readCourses afterRename 6" by code_simp
  have 10: "readCourses afterRename COURSES_DATA \<noteq> readCourses afterSecondCall COURSES_DATA"
    by code_simp
  have "getCourses (1 / 2) afterRename =
      (Inr 7, afterRename @ [ArrayObj (elements afterRename COURSES_DATA)])" by code_simp
  moreover have "readCourses (afterRename @ [ArrayObj (elements afterRename COURSES_DATA)]) 7 =
      readCourses afterRename COURSES_DATA" by code_simp
  ultimately have 11: "\<exists>a h'. getCourses (1 / 2) afterRename = (Inr a, h') \<and>
      readCourses h' a = readCourses afterRename COURSES_DATA" by blast
  show ?thesis
    by (intro conjI) (fact 1 2 3 4 5 6 7 8 9 10 11)+
qed

section \<open>Loading the courses\<close>

lemma render_begin: "render (loadCourses_begin s) = Loading"
  by (simp add: render_def loadCourses_begin_def setError_def setLoading_def)

lemma loadCourses_eq:
  "loadCourses random (s, h) =
     (loadCourses_finally (loadCourses_settled (fst (fetchCourses random h)) (loadCourses_begin s)),
      snd (fetchCourses random h))"
  by (simp add: loadCourses_def split: prod.splits)

lemma loadCourses_resolved:
  assumes "fst (fetchCourses random h) = Inr a"
  shows "fst (loadCourses random (s, h)) = \<lparr> courses = a, loading = False, error = None \<rparr>"
  by (simp add: loadCourses_eq assms loadCourses_finally_def loadCourses_settled_def
      loadCourses_begin_def setCourses_def setError_def setLoading_def)

lemma loadCourses_rejected:
  assumes "fst (fetchCourses random h) = Inl e"
  shows "fst (loadCourses random (s, h)) =
     \<lparr> courses = courses s, loading = False,
       error = Some ''Failed to load courses. Please try again.'' \<rparr>"
  by (simp add: loadCourses_eq assms loadCourses_finally_def loadCourses_settled_def
      loadCourses_begin_def setCourses_def setError_def setLoading_def)

text \<open>
  Claim C2. The page shows exactly one of the spinner, the error card and the
  dashboard, as \<open>render\<close> is a function into \<open>view\<close>. \<open>loadCourses\<close> enters \<open>Loading\<close>
  before its first \<open>await\<close> and clears the error; every state it passes through before
  its last is shown as \<open>Loading\<close>; and its last state is shown as \<open>Ready\<close> with the
  fetched courses when the fetch resolved and as the error card when it rejected:
  one of the two, not both, and not \<open>Loading\<close>. Whatever state the settled fetch
  finds the component in, the state it leaves is not shown as \<open>Loading\<close>.
\<close>

theorem loadCourses_view:
  "render (loadCourses_begin s) = Loading \<and>
   error (loadCourses_begin s) = None \<and>
   length (loadCourses_states random (s, h)) = 4 \<and>
   map render (butlast (loadCourses_states random (s, h))) = [Loading, Loading, Loading] \<and>
   last (loadCourses_states random (s, h)) = fst (loadCourses random (s, h)) \<and>
   render (fst (loadCourses random (s, h))) =
     (case fst (fetchCourses random h) of
        Inr a \<Rightarrow> Ready a
      | Inl e \<Rightarrow> ErrorView ''Failed to load courses. Please try again.'') \<and>
   render (fst (loadCourses random (s, h))) \<noteq> Loading \<and>
   ((\<exists>a. render (fst (loadCourses random (s, h))) = Ready a) \<noteq>
    (\<exists>m. render (fst (loadCourses random (s, h))) = ErrorView m)) \<and>
   render (loadCourses_finally (loadCourses_settled outcome s')) \<noteq> Loading"
proof -
  let ?final = "fst (loadCourses random (s, h))"
  have b: "render (loadCourses_begin s) = Loading" by (rule render_begin)
  have e: "error (loadCourses_begin s) = None"
    by (simp add: loadCourses_begin_def setError_def setLoading_def)
  have n: "length (loadCourses_states random (s, h)) = 4"
    by (simp add: loadCourses_states_def)
  have l: "last (loadCourses_states random (s, h)) = ?final"
    by (simp add: loadCourses_states_def)
  have settled: "render (loadCourses_settled outcome (loadCourses_begin s)) = Loading" for outcome
    by (cases outcome)
      (simp_all add: render_def loadCourses_settled_def loadCourses_begin_def setCourses_def
        setError_def setLoading_def)
  have m: "map render (butlast (loadCourses_states random (s, h))) = [Loading, Loading, Loading]"
    by (simp add: loadCourses_states_def settled render_begin) (simp add: render_def setLoading_def)
  have f: "render ?final =
     (case fst (fetchCourses random h) of
        Inr a \<Rightarrow> Ready a
      | Inl e \<Rightarrow> ErrorView ''Failed to load courses. Please try again.'')"
  proof (cases "fst (fetchCourses random h)")
    case (Inl e)
    then show ?thesis by (simp add: loadCourses_rejected render_def)
  next
    case (Inr a)
    then show ?thesis by (simp add: loadCourses_resolved render_def)
  qed
  have nl: "render ?final \<noteq> Loading"
    unfolding f by (simp split: sum.splits)
  have x: "(\<exists>a. render ?final = Ready a) \<noteq> (\<exists>m. render ?final = ErrorView m)"
    unfolding f by (simp split: sum.splits)
  have any: "render (loadCourses_finally (loadCourses_settled outcome s')) \<noteq> Loading"
    by (cases outcome)
      (simp_all add: render_def loadCourses_finally_def loadCourses_settled_def setCourses_def
        setError_def setLoading_def split: option.splits)
  show ?thesis by (intro conjI) (fact b e n m l f nl x any)+
qed

theorem loadCourses_view_witness:
  "map render (loadCourses_states (1 / 2) (mount module_heap)) =
     [Loading, Loading, Loading, Ready 6] \<and>
   map render (loadCourses_states (1 / 20) loaded) =
     [Loading, Loading, Loading, ErrorView ''Failed to load courses. Please try again.'']"
proof -
  have m: "mount module_heap = (fst (mount module_heap), snd (mount module_heap))" by simp
  have l: "loaded = (fst loaded, snd loaded)" by simp
  have 1: "fst (fetchCourses (1 / 2) (snd (mount module_heap))) = Inr 6" by code_simp
  have 2: "fst (fetchCourses (1 / 20) (snd loaded)) =
    Inl (Error ''Network error: Unable to fetch courses'')" by code_simp
  have split: "xs = butlast xs @ [last xs]" if "length xs = 4" for xs :: "dashboard list"
    using that by (cases xs rule: rev_cases) auto
  have render_all: "map render xs = map render (butlast xs) @ [render (last xs)]"
    if "length xs = 4" for xs :: "dashboard list"
    using split [OF that] by (metis list.simps(8,9) map_append)
  from loadCourses_view [of "fst (mount module_heap)" "1 / 2" "snd (mount module_heap)"] 1
  have "map render (loadCourses_states (1 / 2) (mount module_heap)) =
     [Loading, Loading, Loading, Ready 6]"
    by (simp add: render_all)
  moreover
  from loadCourses_view [of "fst loaded" "1 / 20" "snd loaded"] 2
  have "map render (loadCourses_states (1 / 20) loaded) =
     [Loading, Loading, Loading, ErrorView ''Failed to load courses. Please try again.'']"
    by (simp add: render_all)
  ultimately show ?thesis by simp
qed

text \<open>
  Claim C3, as the code has it. When the fetch rejects, whatever message the failure
  carries, the error the page holds and shows is the fixed text
  \<open>Failed to load courses. Please try again.\<close>
\<close>

theorem loadCourses_error_message:
  assumes "fst (fetchCourses random h) = Inl (Error message)"
  shows "error (fst (loadCourses random (s, h))) =
           Some ''Failed to load courses. Please try again.'' \<and>
         render (fst (loadCourses random (s, h))) =
           ErrorView ''Failed to load courses. Please try again.''"
  by (simp add: loadCourses_rejected [OF assms] render_def)

theorem loadCourses_error_message_witness:
  "fst (fetchCourses (1 / 20) (snd (mount module_heap))) =
     Inl (Error ''Network error: Unable to fetch courses'') \<and>
   render (fst (loadCourses (1 / 20) (mount module_heap))) =
     ErrorView ''Failed to load courses. Please try again.''"
proof -
  have f: "fst (fetchCourses (1 / 20) (snd (mount module_heap))) =
     Inl (Error ''Network error: Unable to fetch courses'')" by code_simp
  have m: "(fst (mount module_heap), snd (mount module_heap)) = mount module_heap" by simp
  from loadCourses_error_message [OF f, of "fst (mount module_heap)"] f show ?thesis
    unfolding m by simp
qed

text \<open>
  The failure of \<open>getCourses\<close> carries \<open>Network error: Unable to fetch courses\<close>, and
  that is not the message shown.
\<close>

theorem loadCourses_error_message_counterexample:
  "fst (fetchCourses (1 / 20) (snd (mount module_heap))) =
     Inl (Error ''Network error: Unable to fetch courses'') \<and>
   render (fst (loadCourses (1 / 20) (mount module_heap))) \<noteq>
     ErrorView ''Network error: Unable to fetch courses''"
  by code_simp

text \<open>
  Claim C4, as the code has it. When the fetch rejects, \<open>loadCourses\<close> leaves the
  courses it held as they were: the same array, with the same elements, in an unchanged
  store. The page shows the error card, so they are not displayed.
\<close>

theorem loadCourses_failure_keeps_courses:
  assumes "fst (fetchCourses random h) = Inl e"
  shows "courses (fst (loadCourses random (s, h))) = courses s \<and>
         snd (loadCourses random (s, h)) = h \<and>
         elements (snd (loadCourses random (s, h))) (courses (fst (loadCourses random (s, h)))) =
           elements h (courses s) \<and>
         (\<exists>m. render (fst (loadCourses random (s, h))) = ErrorView m)"
proof -
  have lt: "random < 1 / 10"
    using assms by (auto simp: fetchCourses_def getCourses_def split: if_splits prod.splits)
  then have h: "snd (fetchCourses random h) = h"
    by (simp add: fetchCourses_def getCourses_failure)
  have "snd (loadCourses random (s, h)) = h" by (simp add: loadCourses_eq h)
  then show ?thesis by (simp add: loadCourses_rejected [OF assms] render_def)
qed

theorem loadCourses_failure_keeps_courses_witness:
  "fst (fetchCourses (1 / 20) (snd loaded)) =
     Inl (Error ''Network error: Unable to fetch courses'') \<and>
   courses (fst failedReload) = courses (fst loaded) \<and>
   snd failedReload = snd loaded \<and>
   (\<exists>m. render (fst failedReload) = ErrorView m)"
proof -
  have f: "fst (fetchCourses (1 / 20) (snd loaded)) =
     Inl (Error ''Network error: Unable to fetch courses'')" by code_simp
  have l: "loadCourses (1 / 20) (fst loaded, snd loaded) = failedReload"
    by (simp add: failedReload_def)
  from loadCourses_failure_keeps_courses [OF f, of "fst loaded"] f show ?thesis
    unfolding l by simp
qed

text \<open>
  A page that has loaded its four courses and then runs \<open>loadCourses\<close> with a failing
  fetch still holds the four courses.
\<close>

theorem loadCourses_failure_keeps_courses_counterexample:
  "fst (fetchCourses (1 / 20) (snd loaded)) =
     Inl (Error ''Network error: Unable to fetch courses'') \<and>
   failedReload = loadCourses (1 / 20) loaded \<and>
   elements (snd failedReload) (courses (fst failedReload)) = [0, 1, 2, 3] \<and>
   readCourses (snd failedReload) (courses (fst failedReload)) \<noteq> []"
proof -
  have "fst (fetchCourses (1 / 20) (snd loaded)) =
     Inl (Error ''Network error: Unable to fetch courses'')" by code_simp
  moreover have "elements (snd failedReload) (courses (fst failedReload)) = [0, 1, 2, 3]"
    by code_simp
  moreover have "readCourses (snd failedReload) (courses (fst failedReload)) \<noteq> []"
    by code_simp
  ultimately show ?thesis by (simp add: failedReload_def)
qed

end
